theory Spec2Isabelle
  imports Complex_Main "HOL-Library.AList" "HOL-Library.Multiset"
    "HOL-Library.Char_ord" "HOL-Library.List_Lexorder"
begin

section \<open>Data model of \<^verbatim>\<open>camibrate/boards.py\<close>\<close>

text \<open>
  Python exceptions raised by the modelled code. A function that may raise returns
  \<open>error + 'a\<close>, with \<open>Inl\<close> for the exception.
\<close>

datatype error =
  AssertionError | ValueError | KeyError | TypeError | IndexError | NameError
  | AttributeError | CvError

fun bind_err :: "error + 'a \<Rightarrow> ('a \<Rightarrow> error + 'b) \<Rightarrow> error + 'b" where
  "bind_err (Inl e) f = Inl e"
| "bind_err (Inr x) f = f x"

text \<open>
  A float is either NaN or a number. Arithmetic is not modelled, only which entries
  are NaN; storing into a \<^verbatim>\<open>float32\<close> array rounds a number with a function \<open>f32\<close>
  that every operation takes as its first argument and that keeps NaN.
\<close>

datatype flt = NaN | Fin real

fun is_nan :: "flt \<Rightarrow> bool" where
  "is_nan NaN = True"
| "is_nan (Fin x) = False"

fun cast_f32 :: "(real \<Rightarrow> real) \<Rightarrow> flt \<Rightarrow> flt" where
  "cast_f32 f32 NaN = NaN"
| "cast_f32 f32 (Fin x) = Fin (f32 x)"

type_synonym pt2 = "flt \<times> flt"
type_synonym pt3 = "flt \<times> flt \<times> flt"
type_synonym vec6 = "flt \<times> flt \<times> flt \<times> flt \<times> flt \<times> flt"

definition nan2 :: pt2 where
  "nan2 = (NaN, NaN)"

definition nan3 :: pt3 where
  "nan3 = (NaN, NaN, NaN)"

definition nan6 :: vec6 where
  "nan6 = (NaN, NaN, NaN, NaN, NaN, NaN)"

text \<open>
  A detection record is a Python dict. \<^verbatim>\<open>framenum\<close> is always there; every other key may
  be missing (outer \<open>None\<close>), and \<^verbatim>\<open>corners\<close>, \<^verbatim>\<open>ids\<close>, \<^verbatim>\<open>rvec\<close> and \<^verbatim>\<open>tvec\<close> may be
  present with the value \<^verbatim>\<open>None\<close> (inner \<open>None\<close>). The key \<^verbatim>\<open>fname\<close> is never read.
  Poses are 3-vectors, arrays of points are lists of pairs.
\<close>

record 'k detection =
  framenum :: 'k
  corners :: "pt2 list option option"
  ids :: "int list option option"
  filled :: "pt2 list option"
  rvec :: "pt3 option option"
  tvec :: "pt3 option option"

text \<open>
  Records are objects: \<^verbatim>\<open>extract_rtvecs\<close> writes into them and every list or group
  that holds the record sees the write. A record is therefore a reference into a
  store, and a merged group (a dict from camera name to record) is an association
  list in insertion order, read with \<open>map_of\<close> and written with \<open>AList.update\<close>.
\<close>

type_synonym ref = nat
type_synonym 'k heap = "ref \<Rightarrow> 'k detection"
type_synonym 'c group = "('c \<times> ref) list"

section \<open>\<^verbatim>\<open>merge_rows\<close>\<close>

text \<open>
  \<^verbatim>\<open>rows_dict = defaultdict(dict)\<close> is a total function from camera names to dicts
  (initially all empty), \<^verbatim>\<open>framenums\<close> a set. \<open>collect_rows\<close> is the loop over one
  camera's rows, \<open>collect_all\<close> the loop over \<^verbatim>\<open>zip(cam_names, all_rows)\<close>.
\<close>

type_synonym ('c, 'k) rows_dict = "'c \<Rightarrow> 'k \<rightharpoonup> ref"

fun collect_rows ::
  "'k heap \<Rightarrow> 'c \<Rightarrow> ref list \<Rightarrow> ('c, 'k) rows_dict \<times> 'k set \<Rightarrow> ('c, 'k) rows_dict \<times> 'k set"
where
  "collect_rows h cname [] st = st"
| "collect_rows h cname (r # rows) (rows_dict, framenums) =
     (let num = framenum (h r)
      in collect_rows h cname rows
           (rows_dict(cname := (rows_dict cname)(num \<mapsto> r)), insert num framenums))"

fun collect_all ::
  "'k heap \<Rightarrow> ('c \<times> ref list) list \<Rightarrow> ('c, 'k) rows_dict \<times> 'k set
     \<Rightarrow> ('c, 'k) rows_dict \<times> 'k set"
where
  "collect_all h [] st = st"
| "collect_all h ((cname, rows) # rest) st = collect_all h rest (collect_rows h cname rows st)"

text \<open>The loop over \<^verbatim>\<open>cam_names\<close> that fills the dict \<^verbatim>\<open>d\<close> of one frame number.\<close>

fun build_group :: "('c, 'k) rows_dict \<Rightarrow> 'k \<Rightarrow> 'c list \<Rightarrow> 'c group \<Rightarrow> 'c group" where
  "build_group rows_dict num [] d = d"
| "build_group rows_dict num (cname # rest) d =
     (case rows_dict cname num of
        None \<Rightarrow> build_group rows_dict num rest d
      | Some r \<Rightarrow> build_group rows_dict num rest (AList.update cname r d))"

text \<open>Lines 68 to 87, once \<^verbatim>\<open>cam_names\<close> is a list.\<close>

definition merge_rows_body ::
  "('k::linorder) heap \<Rightarrow> ref list list \<Rightarrow> 'c list \<Rightarrow> 'c group list"
where
  "merge_rows_body h all_rows cam_names =
     (let (rows_dict, framenums) =
            collect_all h (zip cam_names all_rows) (\<lambda>_. Map.empty, {})
      in map (\<lambda>num. build_group rows_dict num cam_names []) (sorted_list_of_set framenums))"

text \<open>
  The two ways of calling \<^verbatim>\<open>merge_rows\<close>: with a list of camera names, checked by the
  assertion of line 62, and with \<^verbatim>\<open>cam_names=None\<close>, where the names are the
  positions \<^verbatim>\<open>range(len(all_rows))\<close>.
\<close>

definition merge_rows ::
  "('k::linorder) heap \<Rightarrow> ref list list \<Rightarrow> 'c list \<Rightarrow> error + 'c group list"
where
  "merge_rows h all_rows cam_names =
     (if length all_rows = length cam_names
      then Inr (merge_rows_body h all_rows cam_names)
      else Inl AssertionError)"

definition merge_rows_default ::
  "('k::linorder) heap \<Rightarrow> ref list list \<Rightarrow> error + nat group list"
where
  "merge_rows_default h all_rows =
     Inr (merge_rows_body h all_rows [0..<length all_rows])"

subsection \<open>Notions used to state the properties of \<^verbatim>\<open>merge_rows\<close>\<close>

text \<open>
  \<open>latest h rows num\<close> is the last record of \<open>rows\<close> whose frame number is \<open>num\<close>,
  \<open>rows_of cam_names all_rows cname\<close> the records paired with the name \<open>cname\<close> by
  \<^verbatim>\<open>zip(cam_names, all_rows)\<close>, in order, \<open>frame_keys\<close> the frame numbers of all records and
  \<open>sorted_keys\<close> their ascending list.
\<close>

definition latest :: "'k heap \<Rightarrow> ref list \<Rightarrow> 'k \<Rightarrow> ref option" where
  "latest h rows num = find (\<lambda>r. framenum (h r) = num) (rev rows)"

definition rows_of :: "'c list \<Rightarrow> ref list list \<Rightarrow> 'c \<Rightarrow> ref list" where
  "rows_of cam_names all_rows cname =
     concat (map snd (filter (\<lambda>p. fst p = cname) (zip cam_names all_rows)))"

definition frame_keys :: "'k heap \<Rightarrow> ref list list \<Rightarrow> 'k set" where
  "frame_keys h all_rows = (\<Union>rows \<in> set all_rows. (\<lambda>r. framenum (h r)) ` set rows)"

definition sorted_keys :: "('k::linorder) heap \<Rightarrow> ref list list \<Rightarrow> 'k list" where
  "sorted_keys h all_rows = sorted_list_of_set (frame_keys h all_rows)"

text \<open>A store for the examples: record 1 has frame number 3, every other record 5.\<close>

definition example_heap :: "int heap" where
  "example_heap r = \<lparr>framenum = (if r = 1 then 3 else 5), corners = None, ids = None,
                      filled = None, rvec = None, tvec = None\<rparr>"

section \<open>Calibration boards\<close>

text \<open>
  The two classes derived from \<^verbatim>\<open>CalibrationObject\<close>, with the arguments of their
  constructors. The sizes are natural numbers (a negative size makes \<^verbatim>\<open>__init__\<close>
  fail); the dictionary arguments of \<^verbatim>\<open>CharucoBoard\<close> only reach OpenCV.
\<close>

datatype board =
    Checkerboard (squaresX: nat) (squaresY: nat) (square_length: real)
  | CharucoBoard (squaresX: nat) (squaresY: nat) (square_length: real) (marker_length: real)

fun total_size :: "board \<Rightarrow> nat" where
  "total_size (Checkerboard sx sy sl) = sx * sy"
| "total_size (CharucoBoard sx sy sl ml) = (sx - 1) * (sy - 1)"

text \<open>\<^verbatim>\<open>self.empty_detection = np.zeros((total_size, 1, 2)) * np.nan\<close>, as a list of points.\<close>

definition get_empty_detection :: "board \<Rightarrow> pt2 list" where
  "get_empty_detection b = replicate (total_size b) nan2"

text \<open>
  \<^verbatim>\<open>objp[:, :2] = np.mgrid[0:ny, 0:nx].T.reshape(-1, 2); objp *= square_length\<close>: the
  point of index \<open>j * ny + i\<close> is \<open>(i, j, 0)\<close> times the square length, in \<^verbatim>\<open>float32\<close>.
\<close>

definition grid_points :: "(real \<Rightarrow> real) \<Rightarrow> nat \<Rightarrow> nat \<Rightarrow> real \<Rightarrow> pt3 list" where
  "grid_points f32 nx ny sl =
     concat (map (\<lambda>j. map (\<lambda>i. (Fin (f32 (real i * sl)), Fin (f32 (real j * sl)),
                                  Fin (f32 (0 * sl)))) [0..<ny]) [0..<nx])"

fun get_object_points :: "(real \<Rightarrow> real) \<Rightarrow> board \<Rightarrow> pt3 list" where
  "get_object_points f32 (Checkerboard sx sy sl) = grid_points f32 sx sy sl"
| "get_object_points f32 (CharucoBoard sx sy sl ml) = grid_points f32 (sx - 1) (sy - 1) sl"

subsection \<open>\<^verbatim>\<open>fill_points\<close>\<close>

text \<open>
  \<^verbatim>\<open>out[i] = cxs\<close> for a Python integer index: a negative index counts from the end, an
  index outside \<open>-n \<dots> n - 1\<close> raises \<^verbatim>\<open>IndexError\<close>.
\<close>

definition py_index :: "nat \<Rightarrow> int \<Rightarrow> nat option" where
  "py_index n i =
     (if 0 \<le> i \<and> i < int n then Some (nat i)
      else if - int n \<le> i \<and> i < 0 then Some (nat (int n + i))
      else None)"

text \<open>The loop \<^verbatim>\<open>for i, cxs in zip(ids, corners): out[i] = cxs\<close>.\<close>

fun scatter :: "pt2 list \<Rightarrow> (int \<times> pt2) list \<Rightarrow> error + pt2 list" where
  "scatter out [] = Inr out"
| "scatter out ((i, cxs) # rest) =
     (case py_index (length out) i of
        None \<Rightarrow> Inl IndexError
      | Some j \<Rightarrow> scatter (out[j := cxs]) rest)"

text \<open>
  \<^verbatim>\<open>corners\<close> and \<^verbatim>\<open>ids\<close> are arrays or \<^verbatim>\<open>None\<close>. \<^verbatim>\<open>Checkerboard.fill_points\<close> returns
  \<^verbatim>\<open>corners\<close> itself when \<^verbatim>\<open>ids is None\<close>; \<^verbatim>\<open>CharucoBoard.fill_points\<close> calls
  \<^verbatim>\<open>ids.ravel()\<close>, which raises \<^verbatim>\<open>AttributeError\<close> on \<^verbatim>\<open>None\<close>.
\<close>

definition Checkerboard_fill_points ::
  "board \<Rightarrow> pt2 list option \<Rightarrow> int list option \<Rightarrow> error + pt2 list"
where
  "Checkerboard_fill_points b corners' ids' =
     (let out = get_empty_detection b
      in (case corners' of
            None \<Rightarrow> Inr out
          | Some cs \<Rightarrow>
              if length cs = 0 then Inr out
              else (case ids' of
                      None \<Rightarrow> Inr cs
                    | Some is \<Rightarrow> scatter out (zip is cs))))"

definition CharucoBoard_fill_points ::
  "board \<Rightarrow> pt2 list option \<Rightarrow> int list option \<Rightarrow> error + pt2 list"
where
  "CharucoBoard_fill_points b corners' ids' =
     (let out = get_empty_detection b
      in (case corners' of
            None \<Rightarrow> Inr out
          | Some cs \<Rightarrow>
              if length cs = 0 then Inr out
              else (case ids' of
                      None \<Rightarrow> Inl AttributeError
                    | Some is \<Rightarrow> scatter out (zip is cs))))"

fun fill_points :: "board \<Rightarrow> pt2 list option \<Rightarrow> int list option \<Rightarrow> error + pt2 list" where
  "fill_points (Checkerboard sx sy sl) corners' ids' =
     Checkerboard_fill_points (Checkerboard sx sy sl) corners' ids'"
| "fill_points (CharucoBoard sx sy sl ml) corners' ids' =
     CharucoBoard_fill_points (CharucoBoard sx sy sl ml) corners' ids'"

subsection \<open>\<^verbatim>\<open>estimate_pose_points\<close>\<close>

text \<open>
  The OpenCV solvers are outside the repository; they are parameters. Each takes the
  camera (for its matrix and distortions) and returns the pair \<^verbatim>\<open>(rvec, tvec)\<close>, where
  either may be \<^verbatim>\<open>None\<close>, or raises.
\<close>

type_synonym pose = "pt3 option \<times> pt3 option"

record 'cam cv2 =
  solvePnPRansac :: "pt3 list \<Rightarrow> pt2 list \<Rightarrow> 'cam \<Rightarrow> error + pose"
  estimatePoseCharucoBoard :: "pt2 list \<Rightarrow> int list \<Rightarrow> board \<Rightarrow> 'cam \<Rightarrow> error + pose"

definition CharucoBoard_estimate_pose_points ::
  "'cam cv2 \<Rightarrow> board \<Rightarrow> 'cam \<Rightarrow> pt2 list option \<Rightarrow> int list option \<Rightarrow> error + pose"
where
  "CharucoBoard_estimate_pose_points cv b camera corners' ids' =
     (case corners' of
        None \<Rightarrow> Inr (None, None)
      | Some cs \<Rightarrow>
          (case ids' of
             None \<Rightarrow> Inr (None, None)
           | Some is \<Rightarrow>
               if length cs < 3 then Inr (None, None)
               else estimatePoseCharucoBoard cv cs is b camera))"

text \<open>
  \<^verbatim>\<open>Checkerboard.estimate_pose_points(self, camera, points, ids=None)\<close> starts with
  \<^verbatim>\<open>ngood = np.sum(np.isnan(corners)) // 2\<close>. A name is looked up among the locals of the
  call, then among the names bound at module level; a name found in neither raises
  \<^verbatim>\<open>NameError\<close> (\<^verbatim>\<open>corners\<close> is not a builtin).
\<close>

datatype pyval = VPoints "pt2 list option" | VIds "int list option" | VObject

definition module_names :: "string list" where
  "module_names =
     [''cv2'', ''aruco'', ''np'', ''ABC'', ''abstractmethod'', ''trange'', ''defaultdict'',
      ''get_video_params_cap'', ''get_video_params'', ''fix_rvec'', ''merge_rows'',
      ''extract_points'', ''extract_rtvecs'', ''CalibrationObject'', ''Checkerboard'',
      ''ARUCO_DICTS'', ''CharucoBoard'']"

definition py_name :: "(string \<times> pyval) list \<Rightarrow> string \<Rightarrow> error + pyval" where
  "py_name locals name =
     (case map_of locals name of
        Some v \<Rightarrow> Inr v
      | None \<Rightarrow> if name \<in> set module_names then Inr VObject else Inl NameError)"

text \<open>\<^verbatim>\<open>np.sum(np.isnan(a))\<close>: the number of NaN entries of an array of points.\<close>

fun count_nan :: "pyval \<Rightarrow> error + nat" where
  "count_nan (VPoints (Some ps)) =
     Inr (length (filter is_nan (map fst ps)) + length (filter is_nan (map snd ps)))"
| "count_nan v = Inl TypeError"

fun as_points :: "pyval \<Rightarrow> error + pt2 list" where
  "as_points (VPoints (Some ps)) = Inr ps"
| "as_points v = Inl TypeError"

definition Checkerboard_estimate_pose_points ::
  "(real \<Rightarrow> real) \<Rightarrow> 'cam cv2 \<Rightarrow> board \<Rightarrow> 'cam \<Rightarrow> pt2 list option \<Rightarrow> int list option
     \<Rightarrow> error + pose"
where
  "Checkerboard_estimate_pose_points f32 cv b camera points ids' =
     (let locals = [(''self'', VObject), (''camera'', VObject), (''points'', VPoints points),
                    (''ids'', VIds ids')]
      in bind_err (py_name locals ''corners'') (\<lambda>corners'.
         bind_err (count_nan corners') (\<lambda>nnan.
           let ngood = nnan div 2
           in if points = None \<or> ngood < 3 then Inr (None, None)
              else bind_err (as_points corners') (\<lambda>cs.
                     solvePnPRansac cv (get_object_points f32 b) cs camera))))"

fun estimate_pose_points ::
  "(real \<Rightarrow> real) \<Rightarrow> 'cam cv2 \<Rightarrow> board \<Rightarrow> 'cam \<Rightarrow> pt2 list option \<Rightarrow> int list option
     \<Rightarrow> error + pose"
where
  "estimate_pose_points f32 cv (Checkerboard sx sy sl) camera corners' ids' =
     Checkerboard_estimate_pose_points f32 cv (Checkerboard sx sy sl) camera corners' ids'"
| "estimate_pose_points f32 cv (CharucoBoard sx sy sl ml) camera corners' ids' =
     CharucoBoard_estimate_pose_points cv (CharucoBoard sx sy sl ml) camera corners' ids'"

section \<open>The extractors\<close>

subsection \<open>Camera names and the loops over frames and cameras\<close>

text \<open>
  \<^verbatim>\<open>if cam_names is None: s = set.union(*[set(r.keys()) for r in merged]);
  cam_names = sorted(s)\<close>. With no group, \<^verbatim>\<open>set.union()\<close> has no argument and raises
  \<^verbatim>\<open>TypeError\<close>. Camera names are of one ordered type.
\<close>

definition resolve_cam_names ::
  "('c::linorder) group list \<Rightarrow> 'c list option \<Rightarrow> error + 'c list"
where
  "resolve_cam_names merged cam_names =
     (case cam_names of
        Some names \<Rightarrow> Inr names
      | None \<Rightarrow>
          if merged = [] then Inl TypeError
          else Inr (sorted_list_of_set (\<Union>row \<in> set merged. set (map fst row))))"

text \<open>
  Both extractors run
  \<^verbatim>\<open>for rix, row in enumerate(merged): for cix, cname in enumerate(cam_names):
  if cname in row: ...\<close> over a state; the body gets \<open>rix\<close>, \<open>cix\<close> and the record
  \<^verbatim>\<open>row[cname]\<close>, and returns the exception it raised, if any, with the state it left.
\<close>

fun for_cams ::
  "(nat \<Rightarrow> ref \<Rightarrow> 's \<Rightarrow> error option \<times> 's) \<Rightarrow> 'c group \<Rightarrow> (nat \<times> 'c) list \<Rightarrow> 's
     \<Rightarrow> error option \<times> 's"
where
  "for_cams body row [] s = (None, s)"
| "for_cams body row ((cix, cname) # rest) s =
     (case map_of row cname of
        None \<Rightarrow> for_cams body row rest s
      | Some r \<Rightarrow>
          (case body cix r s of
             (Some e, s') \<Rightarrow> (Some e, s')
           | (None, s') \<Rightarrow> for_cams body row rest s'))"

fun for_rows ::
  "(nat \<Rightarrow> nat \<Rightarrow> ref \<Rightarrow> 's \<Rightarrow> error option \<times> 's) \<Rightarrow> 'c list \<Rightarrow> (nat \<times> 'c group) list \<Rightarrow> 's
     \<Rightarrow> error option \<times> 's"
where
  "for_rows body cam_names [] s = (None, s)"
| "for_rows body cam_names ((rix, row) # rest) s =
     (case for_cams (body rix) row (enumerate 0 cam_names) s of
        (Some e, s') \<Rightarrow> (Some e, s')
      | (None, s') \<Rightarrow> for_rows body cam_names rest s')"

text \<open>\<^verbatim>\<open>t[cix, rix] = v\<close> on a tensor whose first two axes are cameras and frames.\<close>

definition set_cell :: "'a list list \<Rightarrow> nat \<Rightarrow> nat \<Rightarrow> 'a \<Rightarrow> 'a list list" where
  "set_cell t cix rix v = t[cix := (t ! cix)[rix := v]]"

text \<open>
  \<^verbatim>\<open>num_good = np.sum(~np.isnan(t), axis=0)[:, 0]\<close> and the mask
  \<^verbatim>\<open>num_good >= min_cameras\<close> over the \<open>n\<close> entries of the second axis, then \<^verbatim>\<open>t[:, good]\<close>.
  The first component of a tuple is \<open>fst\<close>.
\<close>

definition num_good :: "('a \<Rightarrow> flt) \<Rightarrow> 'a list list \<Rightarrow> nat \<Rightarrow> nat" where
  "num_good first t j = length (filter (\<lambda>cam. \<not> is_nan (first (cam ! j))) t)"

definition good_mask :: "('a \<Rightarrow> flt) \<Rightarrow> int \<Rightarrow> 'a list list \<Rightarrow> nat \<Rightarrow> bool list" where
  "good_mask first min_cameras t n = map (\<lambda>j. int (num_good first t j) \<ge> min_cameras) [0..<n]"

definition select :: "bool list \<Rightarrow> 'a list \<Rightarrow> 'a list" where
  "select good xs = map snd (filter fst (zip good xs))"

subsection \<open>\<^verbatim>\<open>extract_points\<close>\<close>

text \<open>
  numpy assignment of an array of \<open>m\<close> rows into a slot of \<open>n\<close> rows: the shapes must be
  equal, or \<open>m = 1\<close> and the row is broadcast; otherwise \<^verbatim>\<open>ValueError\<close>. A boolean mask
  must be as long as the array it indexes, otherwise \<^verbatim>\<open>IndexError\<close>.
\<close>

definition assign_slot :: "nat \<Rightarrow> 'a list \<Rightarrow> error + 'a list" where
  "assign_slot n src =
     (if length src = n then Inr src
      else if length src = 1 then Inr (replicate n (hd src))
      else Inl ValueError)"

definition mask_rows :: "bool list \<Rightarrow> 'a \<Rightarrow> 'a list \<Rightarrow> error + 'a list" where
  "mask_rows bad v xs =
     (if length bad = length xs then Inr (map (\<lambda>(b, x). if b then v else x) (zip bad xs))
      else Inl IndexError)"

definition is_bad :: "pt2 \<Rightarrow> bool" where
  "is_bad p = (is_nan (fst p) \<or> is_nan (snd p))"

definition cast_pt2 :: "(real \<Rightarrow> real) \<Rightarrow> pt2 \<Rightarrow> pt2" where
  "cast_pt2 f32 p = (cast_f32 f32 (fst p), cast_f32 f32 (snd p))"

text \<open>\<^verbatim>\<open>r.get('rvec', None) is None or r.get('tvec', None) is None\<close>.\<close>

definition no_pose :: "'k detection \<Rightarrow> bool" where
  "no_pose d = (rvec d = None \<or> rvec d = Some None \<or> tvec d = None \<or> tvec d = Some None)"

text \<open>
  Lines 125 to 137 for one record: \<open>Inr None\<close> is \<^verbatim>\<open>continue\<close>, \<open>Inr (Some (o, i))\<close> the
  values stored in \<^verbatim>\<open>objp[cix, rix]\<close> and \<^verbatim>\<open>imgp[cix, rix]\<close>.
\<close>

definition points_cell ::
  "(real \<Rightarrow> real) \<Rightarrow> board \<Rightarrow> int \<Rightarrow> bool \<Rightarrow> 'k detection
     \<Rightarrow> error + (pt3 list \<times> pt2 list) option"
where
  "points_cell f32 b min_points ignore_no_pose d =
     (case filled d of
        None \<Rightarrow> Inl KeyError
      | Some fl \<Rightarrow>
          let bad = map is_bad fl;
              ngood = length (filter Not bad);
              n_points_per_detect = length (get_empty_detection b)
          in if int ngood < min_points \<or> (ignore_no_pose \<and> no_pose d) then Inr None
             else bind_err (assign_slot n_points_per_detect (map (cast_pt2 f32) fl)) (\<lambda>img.
                  bind_err (mask_rows bad nan3 (get_object_points f32 b)) (\<lambda>objp_here.
                  bind_err (assign_slot n_points_per_detect objp_here) (\<lambda>obj.
                    Inr (Some (obj, img))))))"

definition points_body ::
  "(real \<Rightarrow> real) \<Rightarrow> board \<Rightarrow> 'k heap \<Rightarrow> int \<Rightarrow> bool \<Rightarrow> nat \<Rightarrow> nat \<Rightarrow> ref
     \<Rightarrow> pt3 list list list \<times> pt2 list list list
     \<Rightarrow> error option \<times> pt3 list list list \<times> pt2 list list list"
where
  "points_body f32 b h min_points ignore_no_pose rix cix r s =
     (case points_cell f32 b min_points ignore_no_pose (h r) of
        Inl e \<Rightarrow> (Some e, s)
      | Inr None \<Rightarrow> (None, s)
      | Inr (Some (obj, img)) \<Rightarrow> (None, (set_cell (fst s) cix rix obj, set_cell (snd s) cix rix img)))"

text \<open>Lines 107 to 137: the two NaN tensors and the loops that fill them.\<close>

definition extract_points_fill ::
  "(real \<Rightarrow> real) \<Rightarrow> 'k heap \<Rightarrow> 'c group list \<Rightarrow> board \<Rightarrow> 'c list \<Rightarrow> int \<Rightarrow> bool
     \<Rightarrow> error + pt3 list list list \<times> pt2 list list list"
where
  "extract_points_fill f32 h merged b cam_names min_points ignore_no_pose =
     (let n_cams = length cam_names;
          n_points_per_detect = length (get_empty_detection b);
          n_detects = length merged;
          objp = replicate n_cams (replicate n_detects (replicate n_points_per_detect nan3));
          imgp = replicate n_cams (replicate n_detects (replicate n_points_per_detect nan2))
      in (case for_rows (points_body f32 b h min_points ignore_no_pose) cam_names
                 (enumerate 0 merged) (objp, imgp) of
            (Some e, s) \<Rightarrow> Inl e
          | (None, s) \<Rightarrow> Inr s))"

text \<open>
  \<^verbatim>\<open>np.reshape(t, (n_cams, -1, d))\<close>: the frame and point axes become one. With no camera
  the length for \<^verbatim>\<open>-1\<close> cannot be found and numpy raises \<^verbatim>\<open>ValueError\<close>.
\<close>

definition flatten :: "'a list list list \<Rightarrow> error + 'a list list" where
  "flatten t = (if t = [] then Inl ValueError else Inr (map concat t))"

definition extract_points ::
  "(real \<Rightarrow> real) \<Rightarrow> 'k heap \<Rightarrow> ('c::linorder) group list \<Rightarrow> board \<Rightarrow> 'c list option \<Rightarrow> int
     \<Rightarrow> int \<Rightarrow> bool \<Rightarrow> error + pt3 list list \<times> pt2 list list"
where
  "extract_points f32 h merged b cam_names min_cameras min_points ignore_no_pose =
     bind_err (resolve_cam_names merged cam_names) (\<lambda>names.
     bind_err (extract_points_fill f32 h merged b names min_points ignore_no_pose) (\<lambda>s.
     bind_err (flatten (fst s)) (\<lambda>objp.
     bind_err (flatten (snd s)) (\<lambda>imgp.
       let good = good_mask fst min_cameras imgp
                    (length merged * length (get_empty_detection b))
       in Inr (map (select good) objp, map (select good) imgp)))))"

subsection \<open>\<^verbatim>\<open>extract_rtvecs\<close>\<close>

text \<open>\<^verbatim>\<open>cameras[cix]\<close>, where \<^verbatim>\<open>cameras\<close> defaults to \<^verbatim>\<open>None\<close>.\<close>

definition cameras_at :: "'cam list option \<Rightarrow> nat \<Rightarrow> error + 'cam" where
  "cameras_at cameras cix =
     (case cameras of
        None \<Rightarrow> Inl TypeError
      | Some cams \<Rightarrow> if cix < length cams then Inr (cams ! cix) else Inl IndexError)"

text \<open>
  Lines 194 to 201 on a record that has both keys: \<open>None\<close> is \<^verbatim>\<open>continue\<close>, otherwise
  the six numbers \<^verbatim>\<open>np.hstack([rvec, tvec])\<close> as stored in the \<^verbatim>\<open>float32\<close> tensor.
\<close>

definition pose_cell :: "(real \<Rightarrow> real) \<Rightarrow> 'k detection \<Rightarrow> vec6 option" where
  "pose_cell f32 d =
     (case (rvec d, tvec d) of
        (Some (Some (a, b, c)), Some (Some (x, y, z))) \<Rightarrow>
          Some (cast_f32 f32 a, cast_f32 f32 b, cast_f32 f32 c,
                cast_f32 f32 x, cast_f32 f32 y, cast_f32 f32 z)
      | _ \<Rightarrow> None)"

definition store_pose ::
  "(real \<Rightarrow> real) \<Rightarrow> nat \<Rightarrow> nat \<Rightarrow> ref \<Rightarrow> 'k heap \<times> vec6 list list
     \<Rightarrow> error option \<times> 'k heap \<times> vec6 list list"
where
  "store_pose f32 rix cix r s =
     (None, (fst s, case pose_cell f32 (fst s r) of
                      None \<Rightarrow> snd s
                    | Some v \<Rightarrow> set_cell (snd s) cix rix v))"

text \<open>
  Lines 179 to 201. The state is the store and the tensor; \<^verbatim>\<open>r['rvec'] = rvec\<close> and
  \<^verbatim>\<open>r['tvec'] = tvec\<close> update the record in the store.
\<close>

definition rtvecs_body ::
  "(real \<Rightarrow> real) \<Rightarrow> 'cam cv2 \<Rightarrow> board option \<Rightarrow> 'cam list option \<Rightarrow> nat \<Rightarrow> nat \<Rightarrow> ref
     \<Rightarrow> 'k heap \<times> vec6 list list \<Rightarrow> error option \<times> 'k heap \<times> vec6 list list"
where
  "rtvecs_body f32 cv board cameras rix cix r s =
     (let h = fst s; d = h r
      in if rvec d = None \<or> tvec d = None then
           (case board of
              None \<Rightarrow> (Some ValueError, s)
            | Some b \<Rightarrow>
                (case cameras_at cameras cix of
                   Inl e \<Rightarrow> (Some e, s)
                 | Inr camera \<Rightarrow>
                     (case corners d of
                        None \<Rightarrow> (Some KeyError, s)
                      | Some corners' \<Rightarrow>
                          (case ids d of
                             None \<Rightarrow> (Some KeyError, s)
                           | Some ids' \<Rightarrow>
                               (case estimate_pose_points f32 cv b camera corners' ids' of
                                  Inl e \<Rightarrow> (Some e, s)
                                | Inr (rvec', tvec') \<Rightarrow>
                                    store_pose f32 rix cix r
                                      (h(r := d\<lparr>rvec := Some rvec', tvec := Some tvec'\<rparr>),
                                       snd s))))))
         else store_pose f32 rix cix r s)"

text \<open>
  The call returns the tensor or raises, and leaves the store as the loop left it,
  also when it raises.
\<close>

definition extract_rtvecs ::
  "(real \<Rightarrow> real) \<Rightarrow> 'cam cv2 \<Rightarrow> 'k heap \<Rightarrow> ('c::linorder) group list \<Rightarrow> 'c list option \<Rightarrow> int
     \<Rightarrow> board option \<Rightarrow> 'cam list option \<Rightarrow> (error + vec6 list list) \<times> 'k heap"
where
  "extract_rtvecs f32 cv h merged cam_names min_cameras board cameras =
     (case resolve_cam_names merged cam_names of
        Inl e \<Rightarrow> (Inl e, h)
      | Inr names \<Rightarrow>
          let n_cams = length names;
              n_detects = length merged;
              rtvecs = replicate n_cams (replicate n_detects nan6)
          in (case for_rows (rtvecs_body f32 cv board cameras) names (enumerate 0 merged)
                     (h, rtvecs) of
                (Some e, s) \<Rightarrow> (Inl e, fst s)
              | (None, s) \<Rightarrow>
                  (Inr (map (select (good_mask fst min_cameras (snd s) n_detects)) (snd s)),
                   fst s)))"

subsection \<open>Notions used to state and prove the properties of the extractors\<close>

text \<open>
  The nested loops visit, in order, the triples of frame index, camera index and
  record for which the camera's name is a key of the frame's group: \<open>visits\<close> lists
  them and \<open>run_visits\<close> runs a loop body over such a list.
\<close>

fun run_visits ::
  "(nat \<Rightarrow> nat \<Rightarrow> ref \<Rightarrow> 's \<Rightarrow> error option \<times> 's) \<Rightarrow> (nat \<times> nat \<times> ref) list \<Rightarrow> 's
     \<Rightarrow> error option \<times> 's"
where
  "run_visits body [] s = (None, s)"
| "run_visits body ((rix, cix, r) # vs) s =
     (case body rix cix r s of
        (Some e, s') \<Rightarrow> (Some e, s')
      | (None, s') \<Rightarrow> run_visits body vs s')"

definition cam_visits :: "nat \<Rightarrow> 'c group \<Rightarrow> (nat \<times> 'c) list \<Rightarrow> (nat \<times> nat \<times> ref) list" where
  "cam_visits rix row ps =
     concat (map (\<lambda>(cix, cname). case map_of row cname of
                                    None \<Rightarrow> [] | Some r \<Rightarrow> [(rix, cix, r)]) ps)"

definition visits :: "'c list \<Rightarrow> 'c group list \<Rightarrow> (nat \<times> nat \<times> ref) list" where
  "visits cam_names merged =
     concat (map (\<lambda>(rix, row). cam_visits rix row (enumerate 0 cam_names))
                 (enumerate 0 merged))"

text \<open>
  A body that only stores a value computed from the record writes the tensor as
  \<open>write_all\<close> does; \<open>cell_obj\<close> and \<open>cell_img\<close> are the values \<^verbatim>\<open>extract_points\<close> stores.
\<close>

definition write_cell ::
  "(ref \<Rightarrow> 'a option) \<Rightarrow> 'a list list \<Rightarrow> nat \<times> nat \<times> ref \<Rightarrow> 'a list list"
where
  "write_cell g t v =
     (case v of (rix, cix, r) \<Rightarrow> (case g r of None \<Rightarrow> t | Some x \<Rightarrow> set_cell t cix rix x))"

definition write_all ::
  "(ref \<Rightarrow> 'a option) \<Rightarrow> (nat \<times> nat \<times> ref) list \<Rightarrow> 'a list list \<Rightarrow> 'a list list"
where
  "write_all g vs t = foldl (write_cell g) t vs"

definition cell_obj ::
  "(real \<Rightarrow> real) \<Rightarrow> board \<Rightarrow> 'k heap \<Rightarrow> int \<Rightarrow> bool \<Rightarrow> ref \<Rightarrow> pt3 list option"
where
  "cell_obj f32 b h min_points ignore_no_pose r =
     (case points_cell f32 b min_points ignore_no_pose (h r) of
        Inr (Some x) \<Rightarrow> Some (fst x) | _ \<Rightarrow> None)"

definition cell_img ::
  "(real \<Rightarrow> real) \<Rightarrow> board \<Rightarrow> 'k heap \<Rightarrow> int \<Rightarrow> bool \<Rightarrow> ref \<Rightarrow> pt2 list option"
where
  "cell_img f32 b h min_points ignore_no_pose r =
     (case points_cell f32 b min_points ignore_no_pose (h r) of
        Inr (Some x) \<Rightarrow> Some (snd x) | _ \<Rightarrow> None)"

text \<open>
  A store for the examples of \<^verbatim>\<open>extract_points\<close>: record 0 has two observed points,
  every other record one observed point and one missing.
\<close>

definition points_heap :: "int heap" where
  "points_heap r =
     \<lparr>framenum = 0, corners = None, ids = None,
      filled = Some (if r = 0 then [(Fin 1, Fin 2), (Fin 3, Fin 4)] else [(Fin 5, Fin 6), (NaN, NaN)]),
      rvec = None, tvec = None\<rparr>"

text \<open>
  For \<^verbatim>\<open>extract_rtvecs\<close>: a record is settled when it has both keys \<^verbatim>\<open>rvec\<close> and \<^verbatim>\<open>tvec\<close>
  (with any value, \<^verbatim>\<open>None\<close> included), and \<open>pose_of\<close> is the value the loop stores for a
  record of the store.
\<close>

definition settled :: "'k heap \<Rightarrow> ref \<Rightarrow> bool" where
  "settled h r = (rvec (h r) \<noteq> None \<and> tvec (h r) \<noteq> None)"

definition pose_of :: "(real \<Rightarrow> real) \<Rightarrow> 'k heap \<Rightarrow> ref \<Rightarrow> vec6 option" where
  "pose_of f32 h r = pose_cell f32 (h r)"

text \<open>
  A store for the examples of \<^verbatim>\<open>extract_rtvecs\<close>: record 0 has a pose, every other record
  has one detected corner and no pose keys. The solvers of \<open>no_cv\<close> always raise.
\<close>

definition rtvecs_heap :: "int heap" where
  "rtvecs_heap r =
     (if r = 0 then
        \<lparr>framenum = 0, corners = None, ids = None, filled = None,
         rvec = Some (Some (Fin 1, Fin 2, Fin 3)), tvec = Some (Some (Fin 4, Fin 5, Fin 6))\<rparr>
      else
        \<lparr>framenum = 0, corners = Some (Some [(Fin 1, Fin 2)]), ids = Some (Some [0]),
         filled = None, rvec = None, tvec = None\<rparr>)"

definition no_cv :: "unit cv2" where
  "no_cv = \<lparr>solvePnPRansac = (\<lambda>objp imgp camera. Inl CvError),
            estimatePoseCharucoBoard = (\<lambda>cs is b camera. Inl CvError)\<rparr>"

text \<open>
  A second store, whose records other than record 0 have three detected corners and no
  pose keys, and a solver \<open>fixed_cv\<close> that returns one fixed pose for a ChArUco board.
\<close>

definition corner_heap :: "int heap" where
  "corner_heap r =
     (if r = 0 then
        \<lparr>framenum = 0, corners = None, ids = None, filled = None,
         rvec = Some (Some (Fin 1, Fin 2, Fin 3)), tvec = Some (Some (Fin 4, Fin 5, Fin 6))\<rparr>
      else
        \<lparr>framenum = 0, corners = Some (Some [(Fin 1, Fin 2), (Fin 3, Fin 4), (Fin 5, Fin 6)]),
         ids = Some (Some [0, 1, 2]), filled = None, rvec = None, tvec = None\<rparr>)"

definition fixed_cv :: "unit cv2" where
  "fixed_cv = \<lparr>solvePnPRansac = (\<lambda>objp imgp camera. Inl CvError),
               estimatePoseCharucoBoard =
                 (\<lambda>cs is b camera. Inr (Some (Fin 7, Fin 8, Fin 9), Some (Fin 10, Fin 11, Fin 12)))\<rparr>"

section \<open>Properties of \<^verbatim>\<open>merge_rows\<close>\<close>

lemma latest_Nil [simp]: "latest h [] num = None"
  by (simp add: latest_def)

lemma find_app:
  "find P (xs @ ys) = (case find P xs of Some x \<Rightarrow> Some x | None \<Rightarrow> find P ys)"
  by (induction xs) auto

lemma latest_append:
  "latest h (xs @ ys) num = (case latest h ys num of Some r \<Rightarrow> Some r | None \<Rightarrow> latest h xs num)"
  unfolding latest_def by (simp add: find_app)

lemma latest_Cons:
  "latest h (r # rows) num =
     (case latest h rows num of Some r' \<Rightarrow> Some r' | None \<Rightarrow> if framenum (h r) = num then Some r else None)"
  using latest_append [of h "[r]" rows num] by (auto simp: latest_def split: option.splits)

lemma collect_rows_char:
  "collect_rows h cname rows (rd, fs) = (rd', fs') \<Longrightarrow>
     fs' = fs \<union> (\<lambda>r. framenum (h r)) ` set rows \<and>
     (\<forall>c num. rd' c num =
        (if c = cname then (case latest h rows num of Some r \<Rightarrow> Some r | None \<Rightarrow> rd c num)
         else rd c num))"
proof (induction rows arbitrary: rd fs)
  case Nil
  then show ?case by simp
next
  case (Cons r rows)
  then show ?case
    by (auto simp: Let_def latest_Cons split: option.splits)
qed

lemma collect_all_char:
  "collect_all h ps (rd, fs) = (rd', fs') \<Longrightarrow>
     fs' = fs \<union> (\<Union>p \<in> set ps. (\<lambda>r. framenum (h r)) ` set (snd p)) \<and>
     (\<forall>c num. rd' c num =
        (case latest h (concat (map snd (filter (\<lambda>p. fst p = c) ps))) num of
           Some r \<Rightarrow> Some r | None \<Rightarrow> rd c num))"
proof (induction ps arbitrary: rd fs)
  case Nil
  then show ?case by simp
next
  case (Cons p ps)
  obtain cname rows where p: "p = (cname, rows)" by (cases p)
  obtain rd1 fs1 where s1: "collect_rows h cname rows (rd, fs) = (rd1, fs1)"
    by (cases "collect_rows h cname rows (rd, fs)")
  from Cons.prems p s1 have s2: "collect_all h ps (rd1, fs1) = (rd', fs')" by simp
  note A = collect_rows_char [OF s1] and B = Cons.IH [OF s2]
  show ?case
  proof (intro conjI allI)
    show "fs' = fs \<union> (\<Union>p \<in> set (p # ps). (\<lambda>r. framenum (h r)) ` set (snd p))"
      using A B p by auto
  next
    fix c num
    show "rd' c num =
        (case latest h (concat (map snd (filter (\<lambda>p. fst p = c) (p # ps)))) num of
           Some r \<Rightarrow> Some r | None \<Rightarrow> rd c num)"
      using A B p by (auto simp: latest_append split: option.splits)
  qed
qed

lemma build_group_map_of:
  "map_of (build_group rd num cs d) c =
     (if c \<in> set cs \<and> rd c num \<noteq> None then rd c num else map_of d c)"
  by (induction cs arbitrary: d) (auto simp: update_conv' split: option.splits)


lemma finite_frame_keys: "finite (frame_keys h all_rows)"
  by (simp add: frame_keys_def)

lemma zip_keys:
  "length cam_names = length all_rows \<Longrightarrow>
     (\<Union>p \<in> set (zip cam_names all_rows). (\<lambda>r. framenum (h r)) ` set (snd p)) = frame_keys h all_rows"
proof -
  assume "length cam_names = length all_rows"
  then have "snd ` set (zip cam_names all_rows) = set all_rows"
    by (metis map_snd_zip set_map)
  moreover have "(\<Union>p \<in> set (zip cam_names all_rows). (\<lambda>r. framenum (h r)) ` set (snd p))
      = (\<Union>rows \<in> snd ` set (zip cam_names all_rows). (\<lambda>r. framenum (h r)) ` set rows)"
    by blast
  ultimately show ?thesis
    by (simp add: frame_keys_def)
qed

lemma find_SomeD: "find P xs = Some x \<Longrightarrow> x \<in> set xs \<and> P x"
  by (induction xs) (auto split: if_splits)

lemma latest_SomeD:
  "latest h rows num = Some r \<Longrightarrow> r \<in> set rows \<and> framenum (h r) = num"
  using find_SomeD [of "\<lambda>r. framenum (h r) = num" "rev rows" r] by (simp add: latest_def)

lemma latest_None_iff:
  "latest h rows num = None \<longleftrightarrow> (\<forall>r \<in> set rows. framenum (h r) \<noteq> num)"
  by (auto simp: latest_def find_None_iff)

lemma merge_rows_body_char:
  assumes len: "length cam_names = length all_rows"
  shows "merge_rows_body h all_rows cam_names =
           map (\<lambda>num. build_group (\<lambda>c. latest h (rows_of cam_names all_rows c)) num cam_names [])
               (sorted_keys h all_rows)"
proof -
  obtain rd fs where c: "collect_all h (zip cam_names all_rows) (\<lambda>_. Map.empty, {}) = (rd, fs)"
    by (cases "collect_all h (zip cam_names all_rows) (\<lambda>_. Map.empty, {})")
  from collect_all_char [OF c] have fs: "fs = frame_keys h all_rows"
    and rd: "\<And>c num. rd c num = latest h (rows_of cam_names all_rows c) num"
    by (auto simp: zip_keys [OF len] rows_of_def split: option.splits)
  have "rd = (\<lambda>c. latest h (rows_of cam_names all_rows c))"
    by (rule ext, rule ext) (simp add: rd)
  then show ?thesis
    by (simp add: merge_rows_body_def c fs sorted_keys_def)
qed

lemma rows_of_Nil: "c \<notin> set cam_names \<Longrightarrow> rows_of cam_names all_rows c = []"
proof -
  assume "c \<notin> set cam_names"
  then have "filter (\<lambda>p. fst p = c) (zip cam_names all_rows) = []"
    by (auto simp: filter_empty_conv dest: set_zip_leftD)
  then show ?thesis by (simp add: rows_of_def)
qed

lemma merge_rows_body_nth:
  assumes len: "length cam_names = length all_rows"
    and i: "i < length (sorted_keys h all_rows)"
  shows "map_of (merge_rows_body h all_rows cam_names ! i) c =
           latest h (rows_of cam_names all_rows c) (sorted_keys h all_rows ! i)"
proof (cases "c \<in> set cam_names")
  case True
  then show ?thesis
    using i by (auto simp: merge_rows_body_char [OF len] build_group_map_of)
next
  case False
  then show ?thesis
    using i by (simp add: merge_rows_body_char [OF len] build_group_map_of rows_of_Nil)
qed

lemma merge_rows_body_length:
  "length cam_names = length all_rows \<Longrightarrow>
     length (merge_rows_body h all_rows cam_names) = length (sorted_keys h all_rows)"
  by (simp add: merge_rows_body_char)


lemma sorted_keys_props:
  "sorted_wrt (<) (sorted_keys h all_rows) \<and> set (sorted_keys h all_rows) = frame_keys h all_rows
   \<and> length (sorted_keys h all_rows) = card (frame_keys h all_rows)"
  by (simp add: sorted_keys_def finite_frame_keys strict_sorted_iff [symmetric])

lemma latest_dom:
  "(\<exists>y. latest h rows num = Some y) = (\<exists>r \<in> set rows. framenum (h r) = num)"
  using latest_None_iff [of h rows num] by (metis not_None_eq)

lemma mset_short_eq:
  assumes "mset xs = mset ys" "length xs \<le> 1"
  shows "xs = ys"
proof (cases xs)
  case Nil
  then show ?thesis using assms by simp
next
  case (Cons x xs')
  then have "xs = [x]" using assms by simp
  then have "mset ys = {#x#}" using assms by simp
  then have "ys = [x]" by simp
  then show ?thesis using \<open>xs = [x]\<close> by simp
qed

lemma distinct_filter_short: "distinct xs \<Longrightarrow> length (filter (\<lambda>x. x = c) xs) \<le> 1"
  by (induction xs) (auto simp: filter_empty_conv)

lemma filter_zip_short:
  assumes "distinct cam_names" "length cam_names = length all_rows"
  shows "length (filter (\<lambda>p. fst p = c) (zip cam_names all_rows)) \<le> 1"
proof -
  have "map fst (filter (\<lambda>p. fst p = c) (zip cam_names all_rows))
          = filter (\<lambda>x. x = c) (map fst (zip cam_names all_rows))"
    by (simp add: filter_map comp_def)
  also have "\<dots> = filter (\<lambda>x. x = c) cam_names"
    using assms by simp
  finally have "length (filter (\<lambda>p. fst p = c) (zip cam_names all_rows))
                  = length (filter (\<lambda>x. x = c) cam_names)"
    by (metis length_map)
  then show ?thesis using distinct_filter_short [OF assms(1)] by simp
qed

lemma rows_of_perm:
  assumes "distinct cam_names" "length cam_names = length all_rows"
    and "mset (zip cam_names' all_rows') = mset (zip cam_names all_rows)"
  shows "rows_of cam_names' all_rows' c = rows_of cam_names all_rows c"
proof -
  have "mset (filter (\<lambda>p. fst p = c) (zip cam_names all_rows))
          = mset (filter (\<lambda>p. fst p = c) (zip cam_names' all_rows'))"
    using assms(3) by simp
  then have "filter (\<lambda>p. fst p = c) (zip cam_names all_rows)
          = filter (\<lambda>p. fst p = c) (zip cam_names' all_rows')"
    using filter_zip_short [OF assms(1,2)] by (rule mset_short_eq)
  then show ?thesis by (simp add: rows_of_def)
qed

lemma frame_keys_perm:
  assumes "length cam_names = length all_rows" "length cam_names' = length all_rows'"
    and "mset (zip cam_names' all_rows') = mset (zip cam_names all_rows)"
  shows "frame_keys h all_rows' = frame_keys h all_rows"
proof -
  have "set (zip cam_names' all_rows') = set (zip cam_names all_rows)"
    using assms(3) by (rule mset_eq_setD)
  then show ?thesis
    using zip_keys [OF assms(1), of h] zip_keys [OF assms(2), of h] by simp
qed

text \<open>
  Claim C5. When camera names are given and their number differs from the number of
  detection lists, \<^verbatim>\<open>merge_rows\<close> raises (the assertion of line 62 fails, which is the
  configuration error of the specification) and returns no merged groups.
\<close>

theorem merge_rows_name_count_mismatch:
  "length cam_names \<noteq> length all_rows \<Longrightarrow> merge_rows h all_rows cam_names = Inl AssertionError"
  by (simp add: merge_rows_def)

theorem merge_rows_name_count_mismatch_witness:
  "length [''A'', ''B''] \<noteq> length [[0::ref]]
   \<and> merge_rows (\<lambda>r. \<lparr>framenum = 0::int, corners = None, ids = None, filled = None,
                      rvec = None, tvec = None\<rparr>) [[0]] [''A'', ''B''] = Inl AssertionError"
  using merge_rows_name_count_mismatch [of "[''A'', ''B'']" "[[0]]"]
  by simp

text \<open>
  Claim C2. Called with as many names as detection lists, or with no names,
  \<^verbatim>\<open>merge_rows\<close> returns one group per distinct frame number of the input, in
  ascending order of frame number; the group of a frame number maps a camera name to
  the last record of that camera with that frame number (last write wins, no failure
  on duplicates), and a name is a key of the group exactly when the camera has such a
  record.
\<close>

theorem merge_rows_groups:
  fixes h :: "('k::linorder) heap"
  shows "(length cam_names = length all_rows \<longrightarrow>
           (\<exists>merged. merge_rows h all_rows cam_names = Inr merged
              \<and> length merged = card (frame_keys h all_rows)
              \<and> (\<forall>i < length merged. \<forall>c.
                    map_of (merged ! i) c
                      = latest h (rows_of cam_names all_rows c) (sorted_keys h all_rows ! i)
                    \<and> (c \<in> dom (map_of (merged ! i)) \<longleftrightarrow>
                         (\<exists>r \<in> set (rows_of cam_names all_rows c).
                            framenum (h r) = sorted_keys h all_rows ! i)))))
       \<and> (\<exists>merged. merge_rows_default h all_rows = Inr merged
              \<and> length merged = card (frame_keys h all_rows)
              \<and> (\<forall>i < length merged. \<forall>c.
                    map_of (merged ! i) c
                      = latest h (rows_of [0..<length all_rows] all_rows c)
                          (sorted_keys h all_rows ! i)
                    \<and> (c \<in> dom (map_of (merged ! i)) \<longleftrightarrow>
                         (\<exists>r \<in> set (rows_of [0..<length all_rows] all_rows c).
                            framenum (h r) = sorted_keys h all_rows ! i))))
       \<and> sorted_wrt (<) (sorted_keys h all_rows)
       \<and> set (sorted_keys h all_rows) = frame_keys h all_rows"
proof -
  have body: "length merged = card (frame_keys h all_rows)
              \<and> (\<forall>i < length merged. \<forall>c.
                    map_of (merged ! i) c
                      = latest h (rows_of names all_rows c) (sorted_keys h all_rows ! i)
                    \<and> (c \<in> dom (map_of (merged ! i)) \<longleftrightarrow>
                         (\<exists>r \<in> set (rows_of names all_rows c).
                            framenum (h r) = sorted_keys h all_rows ! i)))"
    if len: "length names = length all_rows" and m: "merged = merge_rows_body h all_rows names"
    for names :: "'x list" and merged
  proof -
    have l: "length merged = length (sorted_keys h all_rows)"
      using merge_rows_body_length [OF len] m by simp
    have n: "map_of (merged ! i) c
               = latest h (rows_of names all_rows c) (sorted_keys h all_rows ! i)"
      if "i < length merged" for i c
      using merge_rows_body_nth [OF len, of i h c] that l m by simp
    show ?thesis
      using l n sorted_keys_props [of h all_rows] by (simp add: domIff latest_dom)
  qed
  have "length cam_names = length all_rows \<longrightarrow>
           (\<exists>merged. merge_rows h all_rows cam_names = Inr merged
              \<and> length merged = card (frame_keys h all_rows)
              \<and> (\<forall>i < length merged. \<forall>c.
                    map_of (merged ! i) c
                      = latest h (rows_of cam_names all_rows c) (sorted_keys h all_rows ! i)
                    \<and> (c \<in> dom (map_of (merged ! i)) \<longleftrightarrow>
                         (\<exists>r \<in> set (rows_of cam_names all_rows c).
                            framenum (h r) = sorted_keys h all_rows ! i))))"
    using body [of cam_names "merge_rows_body h all_rows cam_names"]
    by (simp add: merge_rows_def)
  moreover have "\<exists>merged. merge_rows_default h all_rows = Inr merged
              \<and> length merged = card (frame_keys h all_rows)
              \<and> (\<forall>i < length merged. \<forall>c.
                    map_of (merged ! i) c
                      = latest h (rows_of [0..<length all_rows] all_rows c)
                          (sorted_keys h all_rows ! i)
                    \<and> (c \<in> dom (map_of (merged ! i)) \<longleftrightarrow>
                         (\<exists>r \<in> set (rows_of [0..<length all_rows] all_rows c).
                            framenum (h r) = sorted_keys h all_rows ! i)))"
    using body [of "[0..<length all_rows]" "merge_rows_body h all_rows [0..<length all_rows]"]
    by (simp add: merge_rows_default_def)
  ultimately show ?thesis
    using sorted_keys_props [of h all_rows] by blast
qed

theorem merge_rows_groups_witness:
  "length [''A'', ''B''] = length [[0, 1, 3], [2::ref]]
   \<and> merge_rows example_heap [[0, 1, 3], [2]] [''A'', ''B'']
       = Inr [[(''A'', 1)], [(''A'', 3), (''B'', 2)]]
   \<and> card (frame_keys example_heap [[0, 1, 3], [2]]) = 2
   \<and> sorted_keys example_heap [[0, 1, 3], [2]] = [3, 5]
   \<and> latest example_heap (rows_of [''A'', ''B''] [[0, 1, 3], [2]] ''A'') 5 = Some 3
   \<and> latest example_heap (rows_of [''A'', ''B''] [[0, 1, 3], [2]] ''B'') 3 = None"
proof -
  have len: "length [''A'', ''B''] = length [[0, 1, 3], [2::ref]]"
    by simp
  have e: "merge_rows example_heap [[0, 1, 3], [2]] [''A'', ''B'']
       = Inr [[(''A'', 1)], [(''A'', 3), (''B'', 2)]]"
    by code_simp
  have k: "sorted_keys example_heap [[0, 1, 3], [2]] = [3, 5]"
    by code_simp
  obtain merged where m: "merge_rows example_heap [[0, 1, 3], [2]] [''A'', ''B''] = Inr merged"
    and c: "length merged = card (frame_keys example_heap [[0, 1, 3], [2]])"
    and g: "\<forall>i < length merged. \<forall>c. map_of (merged ! i) c
              = latest example_heap (rows_of [''A'', ''B''] [[0, 1, 3], [2]] c)
                  (sorted_keys example_heap [[0, 1, 3], [2]] ! i)"
    using merge_rows_groups [of "[''A'', ''B'']" "[[0, 1, 3], [2]]" example_heap] len
    by blast
  from m e have merged: "merged = [[(''A'', 1)], [(''A'', 3), (''B'', 2)]]"
    by simp
  have c2: "card (frame_keys example_heap [[0, 1, 3], [2]]) = 2"
    using c merged by simp
  have i1: "1 < length merged" and i0: "0 < length merged"
    using merged by simp_all
  have "map_of (merged ! 1) ''A''
          = latest example_heap (rows_of [''A'', ''B''] [[0, 1, 3], [2]] ''A'')
              (sorted_keys example_heap [[0, 1, 3], [2]] ! 1)"
    using g i1 by blast
  then have l1: "latest example_heap (rows_of [''A'', ''B''] [[0, 1, 3], [2]] ''A'') 5 = Some 3"
    unfolding merged k by simp
  have "map_of (merged ! 0) ''B''
          = latest example_heap (rows_of [''A'', ''B''] [[0, 1, 3], [2]] ''B'')
              (sorted_keys example_heap [[0, 1, 3], [2]] ! 0)"
    using g i0 by blast
  then have l2: "latest example_heap (rows_of [''A'', ''B''] [[0, 1, 3], [2]] ''B'') 3 = None"
    unfolding merged k by simp
  show ?thesis
    using len e c2 k l1 l2 by (intro conjI)
qed

text \<open>
  Claim C9, as amended. When the camera names are pairwise distinct, permuting the
  detection lists together with their names leaves, for every frame number, the
  association of camera names with records unchanged. The joint permutation is
  stated as equality of the multisets of (name, list) pairs.
\<close>

theorem merge_rows_camera_order:
  fixes h :: "('k::linorder) heap"
  assumes "distinct cam_names"
    and "length cam_names = length all_rows"
    and "length cam_names' = length all_rows'"
    and "mset (zip cam_names' all_rows') = mset (zip cam_names all_rows)"
  shows "\<exists>merged merged'.
           merge_rows h all_rows cam_names = Inr merged
           \<and> merge_rows h all_rows' cam_names' = Inr merged'
           \<and> length merged' = length merged
           \<and> sorted_keys h all_rows' = sorted_keys h all_rows
           \<and> (\<forall>i < length merged. \<forall>c. map_of (merged' ! i) c = map_of (merged ! i) c)"
proof -
  have k: "sorted_keys h all_rows' = sorted_keys h all_rows"
    using frame_keys_perm [OF assms(2,3,4), of h] by (simp add: sorted_keys_def)
  have l: "length (merge_rows_body h all_rows' cam_names') = length (merge_rows_body h all_rows cam_names)"
    using merge_rows_body_length [OF assms(2), of h] merge_rows_body_length [OF assms(3), of h] k
    by simp
  have n: "map_of (merge_rows_body h all_rows' cam_names' ! i) c
             = map_of (merge_rows_body h all_rows cam_names ! i) c"
    if "i < length (merge_rows_body h all_rows cam_names)" for i c
  proof -
    have i: "i < length (sorted_keys h all_rows)"
      using that merge_rows_body_length [OF assms(2), of h] by simp
    show ?thesis
      using merge_rows_body_nth [OF assms(2) i, of c] merge_rows_body_nth [OF assms(3), of i h c]
        i k rows_of_perm [OF assms(1,2,4), of c]
      by simp
  qed
  show ?thesis
    using k l n assms(2,3) by (simp add: merge_rows_def)
qed

theorem merge_rows_camera_order_witness:
  "distinct [''A'', ''B''] \<and> length [''A'', ''B''] = length [[0, 1, 3], [2::ref]]
   \<and> length [''B'', ''A''] = length [[2], [0, 1, 3::ref]]
   \<and> mset (zip [''B'', ''A''] [[2], [0, 1, 3::ref]]) = mset (zip [''A'', ''B''] [[0, 1, 3], [2]])
   \<and> merge_rows example_heap [[0, 1, 3], [2]] [''A'', ''B'']
       = Inr [[(''A'', 1)], [(''A'', 3), (''B'', 2)]]
   \<and> merge_rows example_heap [[2], [0, 1, 3]] [''B'', ''A'']
       = Inr [[(''A'', 1)], [(''B'', 2), (''A'', 3)]]
   \<and> (\<forall>c. map_of [(''B'', 2), (''A'', 3::ref)] c = map_of [(''A'', 3), (''B'', 2)] c)"
proof -
  have d: "distinct [''A'', ''B'']"
    by simp
  have l: "length [''A'', ''B''] = length [[0, 1, 3], [2::ref]]"
    by simp
  have l': "length [''B'', ''A''] = length [[2], [0, 1, 3::ref]]"
    by simp
  have m: "mset (zip [''B'', ''A''] [[2], [0, 1, 3::ref]]) = mset (zip [''A'', ''B''] [[0, 1, 3], [2]])"
    by simp
  have e: "merge_rows example_heap [[0, 1, 3], [2]] [''A'', ''B'']
       = Inr [[(''A'', 1)], [(''A'', 3), (''B'', 2)]]"
    by code_simp
  have e': "merge_rows example_heap [[2], [0, 1, 3]] [''B'', ''A'']
       = Inr [[(''A'', 1)], [(''B'', 2), (''A'', 3)]]"
    by code_simp
  obtain merged merged' where r: "merge_rows example_heap [[0, 1, 3], [2]] [''A'', ''B''] = Inr merged"
    and r': "merge_rows example_heap [[2], [0, 1, 3]] [''B'', ''A''] = Inr merged'"
    and g: "\<forall>i < length merged. \<forall>c. map_of (merged' ! i) c = map_of (merged ! i) c"
    using merge_rows_camera_order [OF d l l' m, of example_heap] by blast
  from r e have merged: "merged = [[(''A'', 1)], [(''A'', 3), (''B'', 2)]]"
    by simp
  from r' e' have merged': "merged' = [[(''A'', 1)], [(''B'', 2), (''A'', 3)]]"
    by simp
  have "1 < length merged"
    using merged by simp
  then have "\<forall>c. map_of (merged' ! 1) c = map_of (merged ! 1) c"
    using g by blast
  then have q: "\<forall>c. map_of [(''B'', 2), (''A'', 3::ref)] c = map_of [(''A'', 3), (''B'', 2)] c"
    unfolding merged merged' by simp
  show ?thesis
    using d l l' m e e' q by (intro conjI)
qed

text \<open>
  Claim C9 as stated fails when a camera name is repeated: the two lists named
  \<^verbatim>\<open>A\<close> both hold a record of frame 5, the later list wins, and swapping the lists
  changes the record that \<^verbatim>\<open>A\<close> maps to.
\<close>

theorem merge_rows_camera_order_counterexample:
  "length [''A'', ''A''] = length [[0], [2::ref]]
   \<and> mset (zip [''A'', ''A''] [[2], [0::ref]]) = mset (zip [''A'', ''A''] [[0], [2]])
   \<and> merge_rows example_heap [[0], [2]] [''A'', ''A''] = Inr [[(''A'', 2)]]
   \<and> merge_rows example_heap [[2], [0]] [''A'', ''A''] = Inr [[(''A'', 0)]]
   \<and> map_of [(''A'', 2::ref)] ''A'' \<noteq> map_of [(''A'', 0)] ''A''"
proof -
  have l: "length [''A'', ''A''] = length [[0], [2::ref]]"
    by simp
  have m: "mset (zip [''A'', ''A''] [[2], [0::ref]]) = mset (zip [''A'', ''A''] [[0], [2]])"
    by simp
  have e: "merge_rows example_heap [[0], [2]] [''A'', ''A''] = Inr [[(''A'', 2)]]"
    by code_simp
  have e': "merge_rows example_heap [[2], [0]] [''A'', ''A''] = Inr [[(''A'', 0)]]"
    by code_simp
  have n: "map_of [(''A'', 2::ref)] ''A'' \<noteq> map_of [(''A'', 0)] ''A''"
    by simp
  show ?thesis
    using l m e e' n by (intro conjI)
qed

section \<open>Properties of the boards\<close>

lemma scatter_char:
  assumes "\<forall>i \<in> fst ` set ps. 0 \<le> i \<and> i < int (length out)"
  shows "\<exists>out'. scatter out ps = Inr out' \<and> length out' = length out
           \<and> (\<forall>j < length out. out' ! j = (case map_of (rev ps) (int j) of
                                               None \<Rightarrow> out ! j | Some c \<Rightarrow> c))"
  using assms
proof (induction ps arbitrary: out)
  case Nil
  then show ?case by simp
next
  case (Cons p ps)
  obtain i c where p: "p = (i, c)" by (cases p)
  from Cons.prems p have i: "0 \<le> i" "i < int (length out)" by auto
  then have ix: "py_index (length out) i = Some (nat i)"
    by (simp add: py_index_def)
  have "\<forall>k \<in> fst ` set ps. 0 \<le> k \<and> k < int (length (out[nat i := c]))"
    using Cons.prems by auto
  from Cons.IH [OF this] obtain out' where
    s: "scatter (out[nat i := c]) ps = Inr out'" and l: "length out' = length out"
    and n: "\<forall>j < length out. out' ! j = (case map_of (rev ps) (int j) of
              None \<Rightarrow> (out[nat i := c]) ! j | Some c' \<Rightarrow> c')"
    by auto
  have "out' ! j = (case map_of (rev (p # ps)) (int j) of None \<Rightarrow> out ! j | Some c' \<Rightarrow> c')"
    if j: "j < length out" for j
  proof (cases "map_of (rev ps) (int j)")
    case None
    then show ?thesis
      using n j i p by (auto simp: map_add_def nth_list_update)
  next
    case (Some c')
    then show ?thesis
      using n j p by (simp add: map_add_def)
  qed
  then show ?case
    using s l p ix by simp
qed

lemma length_grid_points: "length (grid_points f32 nx ny sl) = nx * ny"
  by (simp add: grid_points_def length_concat comp_def sum_list_triv)

lemma length_get_object_points:
  "length (get_object_points f32 b) = length (get_empty_detection b)"
  by (cases b) (simp_all add: length_grid_points get_empty_detection_def)

text \<open>
  Claim C4, as amended. When \<^verbatim>\<open>corners\<close> is \<^verbatim>\<open>None\<close> or empty, \<^verbatim>\<open>fill_points\<close> of either
  board returns the all-NaN layout with one slot per board point. When identifiers are
  given and each identifier paired with a corner is the index of a board point, it
  returns a layout of that fixed length in which slot \<open>j\<close> holds the last corner whose
  identifier is \<open>j\<close> and NaN if there is none. When identifiers are absent and there
  are corners, \<^verbatim>\<open>Checkerboard.fill_points\<close> returns the corners as they are (position is
  identity, the length is the number of corners) and \<^verbatim>\<open>CharucoBoard.fill_points\<close>
  raises.
\<close>

theorem fill_points_layout:
  "(corners' = None \<or> corners' = Some [] \<longrightarrow>
      fill_points b corners' ids' = Inr (replicate (total_size b) nan2))
   \<and> (cs \<noteq> [] \<and> (\<forall>i \<in> fst ` set (zip is cs). 0 \<le> i \<and> i < int (total_size b)) \<longrightarrow>
        (\<exists>out. fill_points b (Some cs) (Some is) = Inr out
           \<and> length out = total_size b
           \<and> (\<forall>j < total_size b.
                 out ! j = (case map_of (rev (zip is cs)) (int j) of
                              None \<Rightarrow> nan2 | Some c \<Rightarrow> c))))
   \<and> (cs \<noteq> [] \<longrightarrow>
        fill_points (Checkerboard sx sy sl) (Some cs) None = Inr cs
        \<and> fill_points (CharucoBoard sx sy sl ml) (Some cs) None = Inl AttributeError)"
proof -
  have a: "fill_points b corners' ids' = Inr (replicate (total_size b) nan2)"
    if "corners' = None \<or> corners' = Some []"
    using that
    by (cases b)
      (auto simp: Checkerboard_fill_points_def CharucoBoard_fill_points_def
        get_empty_detection_def)
  have b: "\<exists>out. fill_points b (Some cs) (Some is) = Inr out
           \<and> length out = total_size b
           \<and> (\<forall>j < total_size b.
                 out ! j = (case map_of (rev (zip is cs)) (int j) of
                              None \<Rightarrow> nan2 | Some c \<Rightarrow> c))"
    if ne: "cs \<noteq> []" and r: "\<forall>i \<in> fst ` set (zip is cs). 0 \<le> i \<and> i < int (total_size b)"
  proof -
    have "\<forall>i \<in> fst ` set (zip is cs). 0 \<le> i \<and> i < int (length (get_empty_detection b))"
      using r by (simp add: get_empty_detection_def)
    from scatter_char [OF this] obtain out where
      s: "scatter (get_empty_detection b) (zip is cs) = Inr out"
      and l: "length out = total_size b"
      and n: "\<forall>j < total_size b. out ! j = (case map_of (rev (zip is cs)) (int j) of
                None \<Rightarrow> get_empty_detection b ! j | Some c \<Rightarrow> c)"
      by (auto simp: get_empty_detection_def)
    have f: "fill_points b (Some cs) (Some is) = Inr out"
      using s ne
      by (cases b) (simp_all add: Checkerboard_fill_points_def CharucoBoard_fill_points_def)
    have "\<forall>j < total_size b. out ! j = (case map_of (rev (zip is cs)) (int j) of
                None \<Rightarrow> nan2 | Some c \<Rightarrow> c)"
      using n by (auto simp: get_empty_detection_def split: option.splits)
    then show ?thesis using f l by blast
  qed
  have c: "fill_points (Checkerboard sx sy sl) (Some cs) None = Inr cs
        \<and> fill_points (CharucoBoard sx sy sl ml) (Some cs) None = Inl AttributeError"
    if "cs \<noteq> []"
    using that by (simp add: Checkerboard_fill_points_def CharucoBoard_fill_points_def)
  show ?thesis
    using a b c by blast
qed

theorem fill_points_layout_witness:
  "fill_points (CharucoBoard 3 3 1 1) (Some [(Fin 7, Fin 9), (Fin 1, Fin 2)]) (Some [2, 0])
     = Inr [(Fin 1, Fin 2), nan2, (Fin 7, Fin 9), nan2]
   \<and> total_size (CharucoBoard 3 3 1 1) = 4
   \<and> fill_points (CharucoBoard 3 3 1 1) (Some []) (Some [2, 0]) = Inr (replicate 4 nan2)
   \<and> fill_points (Checkerboard 2 2 1) (Some [(Fin 7, Fin 9)]) None = Inr [(Fin 7, Fin 9)]"
proof -
  let ?b = "CharucoBoard 3 3 1 1"
  let ?cs = "[(Fin 7, Fin 9), (Fin 1, Fin 2)]"
  note t = fill_points_layout [of "Some []" ?b "Some [2, 0]" ?cs "[2, 0]" 2 2 1 1]
  have r: "\<forall>i \<in> fst ` set (zip [2, 0] ?cs). 0 \<le> i \<and> i < int (total_size ?b)"
    by simp
  have ne: "?cs \<noteq> []"
    by simp
  from t ne r obtain out where f: "fill_points ?b (Some ?cs) (Some [2, 0]) = Inr out"
    and l: "length out = total_size ?b"
    by blast
  have e: "fill_points ?b (Some ?cs) (Some [2, 0]) = Inr [(Fin 1, Fin 2), nan2, (Fin 7, Fin 9), nan2]"
    by (simp add: CharucoBoard_fill_points_def get_empty_detection_def py_index_def nan2_def
        numeral_eq_Suc)
  from f e have out: "out = [(Fin 1, Fin 2), nan2, (Fin 7, Fin 9), nan2]"
    by simp
  have n: "total_size ?b = 4"
    using l out by simp
  from t have "fill_points ?b (Some []) (Some [2, 0]) = Inr (replicate (total_size ?b) nan2)"
    by blast
  then have z: "fill_points ?b (Some []) (Some [2, 0]) = Inr (replicate 4 nan2)"
    unfolding n .
  from t have c: "fill_points (Checkerboard 2 2 1) (Some ?cs) None = Inr ?cs"
    using ne by blast
  have c': "fill_points (Checkerboard 2 2 1) (Some [(Fin 7, Fin 9)]) None = Inr [(Fin 7, Fin 9)]"
    by (simp add: Checkerboard_fill_points_def)
  show ?thesis
    using e n z c' by (intro conjI)
qed

text \<open>
  Claim C4 as stated fails for a checkerboard of four points when one corner is
  passed without identifiers: the result has one slot, not four.
\<close>

theorem fill_points_layout_counterexample:
  "fill_points (Checkerboard 2 2 1) (Some [(Fin 7, Fin 9)]) None = Inr [(Fin 7, Fin 9)]
   \<and> length [(Fin 7, Fin 9)] \<noteq> total_size (Checkerboard 2 2 1)"
  by (simp add: Checkerboard_fill_points_def)

text \<open>
  Claim C1. \<^verbatim>\<open>Checkerboard.estimate_pose_points\<close> is meant to return \<^verbatim>\<open>(None, None)\<close> on
  fewer than three good points, but its first statement reads the unbound name
  \<^verbatim>\<open>corners\<close>: every call raises \<^verbatim>\<open>NameError\<close>, whatever the camera, the points and the
  identifiers.
\<close>

theorem Checkerboard_estimate_pose_points_raises:
  "Checkerboard_estimate_pose_points f32 cv b camera points ids' = Inl NameError"
  by (simp add: Checkerboard_estimate_pose_points_def py_name_def module_names_def)

section \<open>Properties of the extractors\<close>

lemma run_visits_append:
  "run_visits body (xs @ ys) s =
     (case run_visits body xs s of
        (Some e, s') \<Rightarrow> (Some e, s')
      | (None, s') \<Rightarrow> run_visits body ys s')"
  by (induction xs arbitrary: s) (auto split: prod.splits option.splits)

lemma for_cams_visits:
  "for_cams (body rix) row ps s = run_visits body (cam_visits rix row ps) s"
  by (induction ps arbitrary: s)
    (auto simp: cam_visits_def split: option.splits prod.splits)

lemma for_rows_visits_gen:
  "for_rows body cam_names rs s =
     run_visits body
       (concat (map (\<lambda>(rix, row). cam_visits rix row (enumerate 0 cam_names)) rs)) s"
  by (induction rs arbitrary: s)
    (auto simp: run_visits_append for_cams_visits split: option.splits prod.splits)

lemma for_rows_visits:
  "for_rows body cam_names (enumerate 0 merged) s = run_visits body (visits cam_names merged) s"
  by (simp add: for_rows_visits_gen visits_def)

lemma in_cam_visits_gen:
  "(rix', cix, r) \<in> set (cam_visits rix row ps) \<longleftrightarrow>
     rix' = rix \<and> (\<exists>cname. (cix, cname) \<in> set ps \<and> map_of row cname = Some r)"
  by (induction ps) (auto simp: cam_visits_def split: option.splits)

lemma in_cam_visits:
  "(rix', cix, r) \<in> set (cam_visits rix row (enumerate 0 cam_names)) \<longleftrightarrow>
     rix' = rix \<and> cix < length cam_names \<and> map_of row (cam_names ! cix) = Some r"
  by (auto simp: in_cam_visits_gen in_set_enumerate_eq)

lemma in_visits:
  "(rix, cix, r) \<in> set (visits cam_names merged) \<longleftrightarrow>
     rix < length merged \<and> cix < length cam_names
     \<and> map_of (merged ! rix) (cam_names ! cix) = Some r"
  by (auto simp: visits_def in_cam_visits in_set_enumerate_eq)

lemma length_set_cell [simp]: "length (set_cell t cix rix v) = length t"
  by (simp add: set_cell_def)

lemma length_nth_set_cell [simp]: "length (set_cell t cix rix v ! c) = length (t ! c)"
  by (cases "cix < length t"; cases "c = cix") (simp_all add: set_cell_def list_update_beyond)

lemma nth_set_cell:
  "cix < length t \<Longrightarrow> rix < length (t ! cix) \<Longrightarrow>
     set_cell t cix rix v ! c ! r = (if c = cix \<and> r = rix then v else t ! c ! r)"
  by (cases "c = cix") (simp_all add: set_cell_def nth_list_update)

lemma length_write_cell [simp]:
  "length (write_cell g t v) = length t" "length (write_cell g t v ! c) = length (t ! c)"
  by (auto simp: write_cell_def split: prod.splits option.splits)

lemma length_write_all [simp]:
  "length (write_all g vs t) = length t" "length (write_all g vs t ! c) = length (t ! c)"
  by (induction vs arbitrary: t) (simp_all add: write_all_def)

lemma write_all_snoc: "write_all g (vs @ [v]) t = write_cell g (write_all g vs t) v"
  by (simp add: write_all_def)

lemma write_all_Cons: "write_all g (v # vs) t = write_all g vs (write_cell g t v)"
  by (simp add: write_all_def)

lemma write_all_nth:
  assumes "\<forall>rix cix r r'. (rix, cix, r) \<in> set vs \<longrightarrow> (rix, cix, r') \<in> set vs \<longrightarrow> r = r'"
    and "\<forall>(rix, cix, r) \<in> set vs. cix < length t \<and> rix < length (t ! cix)"
  shows "(\<forall>(rix, cix, r) \<in> set vs.
            write_all g vs t ! cix ! rix = (case g r of None \<Rightarrow> t ! cix ! rix | Some x \<Rightarrow> x))
         \<and> (\<forall>rix cix. (\<forall>r. (rix, cix, r) \<notin> set vs) \<longrightarrow>
               write_all g vs t ! cix ! rix = t ! cix ! rix)"
  using assms
proof (induction vs rule: rev_induct)
  case Nil
  then show ?case by (simp add: write_all_def)
next
  case (snoc v vs)
  obtain rix0 cix0 r0 where v: "v = (rix0, cix0, r0)" by (cases v)
  let ?t = "write_all g vs t"
  have f: "\<forall>rix cix r r'. (rix, cix, r) \<in> set vs \<longrightarrow> (rix, cix, r') \<in> set vs \<longrightarrow> r = r'"
    using snoc.prems(1) by auto
  have rg: "\<forall>(rix, cix, r) \<in> set vs. cix < length t \<and> rix < length (t ! cix)"
    using snoc.prems(2) by auto
  note IH = snoc.IH [OF f rg]
  have r0: "cix0 < length ?t" "rix0 < length (?t ! cix0)"
    using snoc.prems(2) v by auto
  have u: "\<And>r. (rix0, cix0, r) \<in> set vs \<Longrightarrow> r = r0"
    using snoc.prems(1) v by auto
  have w: "write_all g (vs @ [v]) t ! c ! k =
             (case g r0 of None \<Rightarrow> ?t ! c ! k
              | Some x \<Rightarrow> if c = cix0 \<and> k = rix0 then x else ?t ! c ! k)" for c k
    using r0 by (simp add: write_all_snoc write_cell_def v nth_set_cell split: option.splits)
  have prev: "?t ! cix0 ! rix0 = (case g r0 of None \<Rightarrow> t ! cix0 ! rix0 | Some x \<Rightarrow> x)
              \<or> ?t ! cix0 ! rix0 = t ! cix0 ! rix0"
  proof (cases "\<exists>r. (rix0, cix0, r) \<in> set vs")
    case True
    then have "(rix0, cix0, r0) \<in> set vs" using u by auto
    then show ?thesis using IH by auto
  next
    case False
    then show ?thesis using IH by auto
  qed
  have A: "write_all g (vs @ [v]) t ! cix ! rix
             = (case g r of None \<Rightarrow> t ! cix ! rix | Some x \<Rightarrow> x)"
    if m: "(rix, cix, r) \<in> set (vs @ [v])" for rix cix r
  proof (cases "rix = rix0 \<and> cix = cix0")
    case True
    then have "r = r0" using m u v by auto
    then show ?thesis
      using True prev by (auto simp: w split: option.splits)
  next
    case False
    then have "(rix, cix, r) \<in> set vs" using m v by auto
    then have "?t ! cix ! rix = (case g r of None \<Rightarrow> t ! cix ! rix | Some x \<Rightarrow> x)"
      using IH by auto
    then show ?thesis
      using False by (auto simp: w split: option.splits)
  qed
  have B: "write_all g (vs @ [v]) t ! cix ! rix = t ! cix ! rix"
    if m: "\<forall>r. (rix, cix, r) \<notin> set (vs @ [v])" for rix cix
  proof -
    have "\<not> (rix = rix0 \<and> cix = cix0)" using m v by auto
    moreover have "?t ! cix ! rix = t ! cix ! rix" using m IH by auto
    ultimately show ?thesis by (auto simp: w split: option.splits)
  qed
  show ?case using A B by blast
qed

lemma points_run:
  "run_visits (points_body f32 b h mp ig) vs s = (None, s') \<Longrightarrow>
     (\<forall>(rix, cix, r) \<in> set vs. \<exists>x. points_cell f32 b mp ig (h r) = Inr x)
     \<and> fst s' = write_all (cell_obj f32 b h mp ig) vs (fst s)
     \<and> snd s' = write_all (cell_img f32 b h mp ig) vs (snd s)"
proof (induction vs arbitrary: s)
  case Nil
  then show ?case by (simp add: write_all_def)
next
  case (Cons v vs)
  obtain rix cix r where v: "v = (rix, cix, r)" by (cases v)
  show ?case
  proof (cases "points_cell f32 b mp ig (h r)")
    case (Inl e)
    then have "points_body f32 b h mp ig rix cix r s = (Some e, s)"
      by (simp add: points_body_def)
    then show ?thesis using Cons.prems v by simp
  next
    case (Inr x)
    show ?thesis
    proof (cases x)
      case None
      then have "points_body f32 b h mp ig rix cix r s = (None, s)"
        using Inr by (simp add: points_body_def)
      then have "run_visits (points_body f32 b h mp ig) vs s = (None, s')"
        using Cons.prems v by simp
      from Cons.IH [OF this] show ?thesis
        using v Inr None by (simp add: write_all_Cons write_cell_def cell_obj_def cell_img_def)
    next
      case (Some p)
      obtain obj img where p: "p = (obj, img)" by (cases p)
      let ?s1 = "(set_cell (fst s) cix rix obj, set_cell (snd s) cix rix img)"
      have "points_body f32 b h mp ig rix cix r s = (None, ?s1)"
        using Inr Some p by (simp add: points_body_def)
      then have "run_visits (points_body f32 b h mp ig) vs ?s1 = (None, s')"
        using Cons.prems v by simp
      from Cons.IH [OF this] show ?thesis
        using v Inr Some p
        by (simp add: write_all_Cons write_cell_def cell_obj_def cell_img_def)
    qed
  qed
qed

lemma mask_rows_map:
  "length fl = length xs \<Longrightarrow>
     mask_rows (map is_bad fl) v xs = Inr (map (\<lambda>(p, q). if is_bad p then v else q) (zip fl xs))"
  by (simp add: mask_rows_def zip_map1 split_def)

lemma points_cell_Inr:
  assumes "points_cell f32 b mp ig d = Inr x"
  shows "\<exists>fl. filled d = Some fl \<and>
           (if int (length (filter (\<lambda>p. \<not> is_bad p) fl)) < mp \<or> (ig \<and> no_pose d)
            then x = None
            else length fl = total_size b
                 \<and> x = Some (map (\<lambda>(p, q). if is_bad p then nan3 else q)
                                 (zip fl (get_object_points f32 b)),
                             map (cast_pt2 f32) fl))"
proof -
  from assms obtain fl where fl: "filled d = Some fl"
    by (auto simp: points_cell_def split: option.splits)
  have n: "length (get_object_points f32 b) = total_size b"
    by (simp add: length_get_object_points get_empty_detection_def)
  have g: "length (filter Not (map is_bad fl)) = length (filter (\<lambda>p. \<not> is_bad p) fl)"
    by (simp add: filter_map comp_def)
  show ?thesis
  proof (cases "int (length (filter (\<lambda>p. \<not> is_bad p) fl)) < mp \<or> (ig \<and> no_pose d)")
    case True
    then show ?thesis
      using assms fl g by (auto simp: points_cell_def Let_def)
  next
    case False
    then have e: "bind_err (assign_slot (total_size b) (map (cast_pt2 f32) fl)) (\<lambda>img.
                  bind_err (mask_rows (map is_bad fl) nan3 (get_object_points f32 b)) (\<lambda>objp_here.
                  bind_err (assign_slot (total_size b) objp_here) (\<lambda>obj.
                    Inr (Some (obj, img))))) = Inr x"
      using assms fl g by (auto simp: points_cell_def Let_def get_empty_detection_def)
    have l: "length fl = total_size b"
    proof (rule ccontr)
      assume "length fl \<noteq> total_size b"
      then have "mask_rows (map is_bad fl) nan3 (get_object_points f32 b) = Inl IndexError"
        by (simp add: mask_rows_def n)
      then show False
        using e by (cases "assign_slot (total_size b) (map (cast_pt2 f32) fl)") simp_all
    qed
    have "x = Some (map (\<lambda>(p, q). if is_bad p then nan3 else q)
                      (zip fl (get_object_points f32 b)), map (cast_pt2 f32) fl)"
      using e l n by (simp add: assign_slot_def mask_rows_map)
    then show ?thesis
      using fl False l by auto
  qed
qed

lemma visits_functional:
  "(rix, cix, r) \<in> set (visits cam_names merged) \<Longrightarrow>
   (rix, cix, r') \<in> set (visits cam_names merged) \<Longrightarrow> r = r'"
  by (simp add: in_visits)

lemma is_bad_cast [simp]: "is_bad (cast_pt2 f32 p) = is_bad p"
  by (cases p; cases "fst p"; cases "snd p") (simp_all add: is_bad_def cast_pt2_def)

lemma copied_not_all_nan:
  assumes "p \<in> set fl" "\<not> is_bad p"
  shows "map (cast_pt2 f32) fl \<noteq> replicate n nan2"
proof
  assume "map (cast_pt2 f32) fl = replicate n nan2"
  moreover have "cast_pt2 f32 p \<in> set (map (cast_pt2 f32) fl)"
    using assms(1) by simp
  ultimately have "cast_pt2 f32 p = nan2"
    by (metis in_set_replicate)
  then have "is_bad (cast_pt2 f32 p)"
    by (simp add: is_bad_def nan2_def)
  then show False using assms(2) by simp
qed

text \<open>
  Claim C7. After the loops of \<^verbatim>\<open>extract_points\<close> (lines 122 to 137), for each frame and
  each camera whose name is a key of that frame's group, the camera's slot is left
  entirely NaN when the number of filled points without a NaN coordinate is below
  \<^verbatim>\<open>min_points\<close>, or when \<^verbatim>\<open>ignore_no_pose\<close> is set and the record's \<^verbatim>\<open>rvec\<close> or \<^verbatim>\<open>tvec\<close> is
  missing or \<^verbatim>\<open>None\<close>; otherwise the image slot is the record's filled points (stored as
  \<^verbatim>\<open>float32\<close>) and the object slot is the board's object points with the points the
  camera did not observe set to NaN. For \<^verbatim>\<open>min_points\<close> of at least one a copied slot is
  never entirely NaN, so the slot is entirely NaN exactly in the first case. The slot
  of a camera that is not in the group stays NaN.
\<close>

theorem extract_points_slots:
  assumes fill: "extract_points_fill f32 h merged b cam_names min_points ignore_no_pose
                   = Inr (objp, imgp)"
    and rix: "rix < length merged" and cix: "cix < length cam_names"
  shows "case map_of (merged ! rix) (cam_names ! cix) of
           None \<Rightarrow>
             objp ! cix ! rix = replicate (total_size b) nan3
             \<and> imgp ! cix ! rix = replicate (total_size b) nan2
         | Some r \<Rightarrow>
             (\<exists>fl. filled (h r) = Some fl
                \<and> (if int (length (filter (\<lambda>p. \<not> is_bad p) fl)) < min_points
                       \<or> (ignore_no_pose \<and> no_pose (h r))
                    then objp ! cix ! rix = replicate (total_size b) nan3
                         \<and> imgp ! cix ! rix = replicate (total_size b) nan2
                    else length fl = total_size b
                         \<and> imgp ! cix ! rix = map (cast_pt2 f32) fl
                         \<and> objp ! cix ! rix
                             = map (\<lambda>(p, q). if is_bad p then nan3 else q)
                                 (zip fl (get_object_points f32 b))
                         \<and> (0 < min_points \<longrightarrow>
                              imgp ! cix ! rix \<noteq> replicate (total_size b) nan2)))"
proof -
  let ?n = "total_size b"
  let ?objp0 = "replicate (length cam_names) (replicate (length merged) (replicate ?n nan3))"
  let ?imgp0 = "replicate (length cam_names) (replicate (length merged) (replicate ?n nan2))"
  let ?vs = "visits cam_names merged"
  let ?go = "cell_obj f32 b h min_points ignore_no_pose"
  let ?gi = "cell_img f32 b h min_points ignore_no_pose"
  have run: "run_visits (points_body f32 b h min_points ignore_no_pose) ?vs (?objp0, ?imgp0)
               = (None, (objp, imgp))"
    using fill
    by (auto simp: extract_points_fill_def Let_def get_empty_detection_def for_rows_visits
        split: prod.splits option.splits)
  from points_run [OF run]
  have ok: "\<forall>(rix, cix, r) \<in> set ?vs. \<exists>x. points_cell f32 b min_points ignore_no_pose (h r) = Inr x"
    and o: "objp = write_all ?go ?vs ?objp0" and i: "imgp = write_all ?gi ?vs ?imgp0"
    by simp_all
  have f: "\<forall>rix cix r r'. (rix, cix, r) \<in> set ?vs \<longrightarrow> (rix, cix, r') \<in> set ?vs \<longrightarrow> r = r'"
    using visits_functional by blast
  have ro: "\<forall>(rix, cix, r) \<in> set ?vs. cix < length ?objp0 \<and> rix < length (?objp0 ! cix)"
    by (auto simp: in_visits)
  have ri: "\<forall>(rix, cix, r) \<in> set ?vs. cix < length ?imgp0 \<and> rix < length (?imgp0 ! cix)"
    by (auto simp: in_visits)
  note wo = write_all_nth [OF f ro, of ?go] and wi = write_all_nth [OF f ri, of ?gi]
  have o0: "?objp0 ! cix ! rix = replicate ?n nan3" and i0: "?imgp0 ! cix ! rix = replicate ?n nan2"
    using rix cix by simp_all
  show ?thesis
  proof (cases "map_of (merged ! rix) (cam_names ! cix)")
    case None
    then have "\<forall>r. (rix, cix, r) \<notin> set ?vs"
      by (simp add: in_visits)
    then have "objp ! cix ! rix = ?objp0 ! cix ! rix" "imgp ! cix ! rix = ?imgp0 ! cix ! rix"
      using wo wi o i by blast+
    then show ?thesis
      using None o0 i0 by simp
  next
    case (Some r)
    then have v: "(rix, cix, r) \<in> set ?vs"
      using rix cix by (simp add: in_visits)
    then obtain x where x: "points_cell f32 b min_points ignore_no_pose (h r) = Inr x"
      using ok by blast
    have co: "objp ! cix ! rix = (case ?go r of None \<Rightarrow> ?objp0 ! cix ! rix | Some y \<Rightarrow> y)"
      using wo v o by blast
    have ci: "imgp ! cix ! rix = (case ?gi r of None \<Rightarrow> ?imgp0 ! cix ! rix | Some y \<Rightarrow> y)"
      using wi v i by blast
    from points_cell_Inr [OF x] obtain fl where fl: "filled (h r) = Some fl"
      and c: "if int (length (filter (\<lambda>p. \<not> is_bad p) fl)) < min_points
                  \<or> (ignore_no_pose \<and> no_pose (h r))
              then x = None
              else length fl = total_size b
                   \<and> x = Some (map (\<lambda>(p, q). if is_bad p then nan3 else q)
                                   (zip fl (get_object_points f32 b)),
                               map (cast_pt2 f32) fl)"
      by blast
    show ?thesis
    proof (cases "int (length (filter (\<lambda>p. \<not> is_bad p) fl)) < min_points
                  \<or> (ignore_no_pose \<and> no_pose (h r))")
      case True
      then have "x = None" using c by simp
      then have "objp ! cix ! rix = replicate ?n nan3" "imgp ! cix ! rix = replicate ?n nan2"
        using co ci x o0 i0 by (simp_all add: cell_obj_def cell_img_def)
      then show ?thesis
        using Some fl True by auto
    next
      case False
      then have l: "length fl = total_size b"
        and xs: "x = Some (map (\<lambda>(p, q). if is_bad p then nan3 else q)
                             (zip fl (get_object_points f32 b)), map (cast_pt2 f32) fl)"
        using c by simp_all
      have eo: "objp ! cix ! rix = map (\<lambda>(p, q). if is_bad p then nan3 else q)
                                      (zip fl (get_object_points f32 b))"
        and ei: "imgp ! cix ! rix = map (cast_pt2 f32) fl"
        using co ci x xs by (simp_all add: cell_obj_def cell_img_def)
      have nn: "imgp ! cix ! rix \<noteq> replicate ?n nan2" if "0 < min_points"
      proof -
        have "0 < int (length (filter (\<lambda>p. \<not> is_bad p) fl))"
          using False that by linarith
        then have "filter (\<lambda>p. \<not> is_bad p) fl \<noteq> []"
          by auto
        then obtain p where "p \<in> set (filter (\<lambda>p. \<not> is_bad p) fl)"
          by (meson last_in_set)
        then have "p \<in> set fl" "\<not> is_bad p"
          by simp_all
        then show ?thesis
          using copied_not_all_nan ei by simp
      qed
      show ?thesis
        using Some fl False l eo ei nn by auto
    qed
  qed
qed

theorem extract_points_slots_witness:
  "extract_points_fill (\<lambda>x. x) points_heap [[(''A'', 0), (''B'', 1)]] (Checkerboard 1 2 1)
       [''A'', ''B''] 2 False
     = Inr ([[[(Fin 0, Fin 0, Fin 0), (Fin 1, Fin 0, Fin 0)]], [[nan3, nan3]]],
            [[[(Fin 1, Fin 2), (Fin 3, Fin 4)]], [[nan2, nan2]]])
   \<and> (0::nat) < length [[(''A'', 0::ref), (''B'', 1)]] \<and> (1::nat) < length [''A'', ''B'']
   \<and> [[[(Fin 1, Fin 2), (Fin 3, Fin 4)]], [[nan2, nan2]]] ! 1 ! 0
       = replicate (total_size (Checkerboard 1 2 1)) nan2
   \<and> [[[(Fin 1, Fin 2), (Fin 3, Fin 4)]], [[nan2, nan2]]] ! 0 ! 0
       = map (cast_pt2 (\<lambda>x. x)) [(Fin 1, Fin 2), (Fin 3, Fin 4)]"
proof -
  let ?objp = "[[[(Fin 0, Fin 0, Fin 0), (Fin 1, Fin 0, Fin 0)]], [[nan3, nan3]]]"
  let ?imgp = "[[[(Fin 1, Fin 2), (Fin 3, Fin 4)]], [[nan2, nan2]]]"
  have f: "extract_points_fill (\<lambda>x. x) points_heap [[(''A'', 0), (''B'', 1)]]
             (Checkerboard 1 2 1) [''A'', ''B''] 2 False = Inr (?objp, ?imgp)"
    by code_simp
  have r: "(0::nat) < length [[(''A'', 0::ref), (''B'', 1)]]"
    by simp
  have c1: "(1::nat) < length [''A'', ''B'']" and c0: "(0::nat) < length [''A'', ''B'']"
    by simp_all
  have b: "?imgp ! 1 ! 0 = replicate (total_size (Checkerboard 1 2 1)) nan2"
    using extract_points_slots [OF f r c1] by (simp add: points_heap_def is_bad_def)
  have a: "?imgp ! 0 ! 0 = map (cast_pt2 (\<lambda>x. x)) [(Fin 1, Fin 2), (Fin 3, Fin 4)]"
    using extract_points_slots [OF f r c0] by (simp add: points_heap_def is_bad_def)
  show ?thesis
    using f r c1 b a by (intro conjI)
qed

lemma select_mono:
  "length g1 = length g2 \<Longrightarrow> \<forall>j < length g2. g2 ! j \<longrightarrow> g1 ! j \<Longrightarrow>
     length (select g2 xs) \<le> length (select g1 xs)"
proof (induction g1 g2 arbitrary: xs rule: list_induct2)
  case Nil
  then show ?case by (simp add: select_def)
next
  case (Cons a g1 b g2)
  have t: "\<forall>j < length g2. g2 ! j \<longrightarrow> g1 ! j"
    using Cons.prems by auto
  have h: "b \<longrightarrow> a"
    using Cons.prems by auto
  show ?case
  proof (cases xs)
    case Nil
    then show ?thesis by (simp add: select_def)
  next
    case (Cons x xs')
    have "length (select g2 xs') \<le> length (select g1 xs')"
      using Cons.IH t \<open>length g1 = length g2\<close> by blast
    then show ?thesis
      using h Cons by (auto simp: select_def)
  qed
qed

lemma good_mask_mono:
  "m1 \<le> m2 \<Longrightarrow> \<forall>j < length (good_mask first m2 t n). good_mask first m2 t n ! j \<longrightarrow> good_mask first m1 t n ! j"
  by (simp add: good_mask_def)

text \<open>
  Claim C8. With every other argument fixed, if \<^verbatim>\<open>extract_points\<close> returns with
  \<^verbatim>\<open>min_cameras = m1\<close> then it returns with every larger \<^verbatim>\<open>min_cameras = m2\<close>, and for each
  camera the second result has at most as many observation rows as the first, in the
  object points and in the image points.
\<close>

theorem extract_points_min_cameras_monotone:
  assumes le: "m1 \<le> m2"
    and r1: "extract_points f32 h merged b cam_names m1 min_points ignore_no_pose = Inr (objp1, imgp1)"
  shows "\<exists>objp2 imgp2.
           extract_points f32 h merged b cam_names m2 min_points ignore_no_pose = Inr (objp2, imgp2)
           \<and> length objp2 = length objp1 \<and> length imgp2 = length imgp1
           \<and> (\<forall>c < length imgp1. length (imgp2 ! c) \<le> length (imgp1 ! c))
           \<and> (\<forall>c < length objp1. length (objp2 ! c) \<le> length (objp1 ! c))"
proof -
  from r1 obtain names where n: "resolve_cam_names merged cam_names = Inr names"
    by (cases "resolve_cam_names merged cam_names") (simp_all add: extract_points_def)
  from r1 n obtain s where
    s: "extract_points_fill f32 h merged b names min_points ignore_no_pose = Inr s"
    by (cases "extract_points_fill f32 h merged b names min_points ignore_no_pose")
      (simp_all add: extract_points_def)
  from r1 n s obtain objp where fo: "flatten (fst s) = Inr objp"
    by (cases "flatten (fst s)") (simp_all add: extract_points_def)
  from r1 n s fo obtain imgp where fi: "flatten (snd s) = Inr imgp"
    by (cases "flatten (snd s)") (simp_all add: extract_points_def)
  let ?n = "length merged * length (get_empty_detection b)"
  let ?g1 = "good_mask fst m1 imgp ?n" and ?g2 = "good_mask fst m2 imgp ?n"
  have e1: "objp1 = map (select ?g1) objp" "imgp1 = map (select ?g1) imgp"
    using r1 n s fo fi by (simp_all add: extract_points_def Let_def)
  have e2: "extract_points f32 h merged b cam_names m2 min_points ignore_no_pose
              = Inr (map (select ?g2) objp, map (select ?g2) imgp)"
    using n s fo fi by (simp add: extract_points_def Let_def)
  have lg: "length ?g1 = length ?g2"
    by (simp add: good_mask_def)
  have mi: "length (select ?g2 xs) \<le> length (select ?g1 xs)" for xs :: "pt2 list"
    using select_mono [OF lg good_mask_mono [OF le]] by blast
  have mo: "length (select ?g2 xs) \<le> length (select ?g1 xs)" for xs :: "pt3 list"
    using select_mono [OF lg good_mask_mono [OF le]] by blast
  show ?thesis
    using e1 e2 mi mo by simp
qed

theorem extract_points_min_cameras_monotone_witness:
  "(1::int) \<le> 2
   \<and> extract_points (\<lambda>x. x) points_heap [[(''A'', 0), (''B'', 1)]] (Checkerboard 1 2 1) None
         1 1 False
       = Inr ([[(Fin 0, Fin 0, Fin 0), (Fin 1, Fin 0, Fin 0)], [(Fin 0, Fin 0, Fin 0), nan3]],
              [[(Fin 1, Fin 2), (Fin 3, Fin 4)], [(Fin 5, Fin 6), nan2]])
   \<and> extract_points (\<lambda>x. x) points_heap [[(''A'', 0), (''B'', 1)]] (Checkerboard 1 2 1) None
         2 1 False
       = Inr ([[(Fin 0, Fin 0, Fin 0)], [(Fin 0, Fin 0, Fin 0)]],
              [[(Fin 1, Fin 2)], [(Fin 5, Fin 6)]])
   \<and> length [(Fin 1, Fin 2)] \<le> length [(Fin 1, Fin 2), (Fin 3, Fin 4)]"
proof -
  have le: "(1::int) \<le> 2"
    by simp
  have e1: "extract_points (\<lambda>x. x) points_heap [[(''A'', 0), (''B'', 1)]] (Checkerboard 1 2 1)
              None 1 1 False
       = Inr ([[(Fin 0, Fin 0, Fin 0), (Fin 1, Fin 0, Fin 0)], [(Fin 0, Fin 0, Fin 0), nan3]],
              [[(Fin 1, Fin 2), (Fin 3, Fin 4)], [(Fin 5, Fin 6), nan2]])"
    by code_simp
  have e2: "extract_points (\<lambda>x. x) points_heap [[(''A'', 0), (''B'', 1)]] (Checkerboard 1 2 1)
              None 2 1 False
       = Inr ([[(Fin 0, Fin 0, Fin 0)], [(Fin 0, Fin 0, Fin 0)]],
              [[(Fin 1, Fin 2)], [(Fin 5, Fin 6)]])"
    by code_simp
  obtain objp2 imgp2 where
    r2: "extract_points (\<lambda>x. x) points_heap [[(''A'', 0), (''B'', 1)]] (Checkerboard 1 2 1)
           None 2 1 False = Inr (objp2, imgp2)"
    and m: "\<forall>c < length [[(Fin 1, Fin 2), (Fin 3, Fin 4)], [(Fin 5, Fin 6), nan2]].
              length (imgp2 ! c)
                \<le> length ([[(Fin 1, Fin 2), (Fin 3, Fin 4)], [(Fin 5, Fin 6), nan2]] ! c)"
    using extract_points_min_cameras_monotone [OF le e1] by blast
  from r2 e2 have i2: "imgp2 = [[(Fin 1, Fin 2)], [(Fin 5, Fin 6)]]"
    by simp
  have "length (imgp2 ! 0)
          \<le> length ([[(Fin 1, Fin 2), (Fin 3, Fin 4)], [(Fin 5, Fin 6), nan2]] ! 0)"
    using m by auto
  then have l: "length [(Fin 1, Fin 2)] \<le> length [(Fin 1, Fin 2), (Fin 3, Fin 4)]"
    unfolding i2 by simp
  show ?thesis
    using le e1 e2 l by (intro conjI)
qed

section \<open>Properties of \<^verbatim>\<open>extract_rtvecs\<close>\<close>

lemma store_pose_eq:
  "store_pose f32 rix cix r (h, t) = (None, (h, write_cell (pose_of f32 h) t (rix, cix, r)))"
  by (simp add: store_pose_def write_cell_def pose_of_def split: option.split)

lemma rtvecs_body_settled:
  "settled h r \<Longrightarrow>
     rtvecs_body f32 cv board cameras rix cix r (h, t)
       = (None, (h, write_cell (pose_of f32 h) t (rix, cix, r)))"
  by (auto simp: rtvecs_body_def settled_def store_pose_eq Let_def)

lemma rtvecs_body_no_board:
  "\<not> settled h r \<Longrightarrow>
     rtvecs_body f32 cv None cameras rix cix r (h, t) = (Some ValueError, (h, t))"
  by (simp add: rtvecs_body_def settled_def Let_def)

lemma rtvecs_body_error:
  "rtvecs_body f32 cv board cameras rix cix r (h, t) = (Some e, s') \<Longrightarrow> s' = (h, t)"
  by (auto simp: rtvecs_body_def store_pose_eq Let_def
      split: if_splits option.splits sum.splits prod.splits)

lemma rtvecs_body_step:
  assumes "rtvecs_body f32 cv board cameras rix cix r (h, t) = (None, (h', t'))"
  shows "t' = write_cell (pose_of f32 h') t (rix, cix, r) \<and> settled h' r
         \<and> (h' = h \<and> settled h r
            \<or> \<not> settled h r
              \<and> (\<exists>b cam cs is rv tv.
                    board = Some b \<and> cameras_at cameras cix = Inr cam
                    \<and> corners (h r) = Some cs \<and> ids (h r) = Some is
                    \<and> estimate_pose_points f32 cv b cam cs is = Inr (rv, tv)
                    \<and> h' = h(r := (h r)\<lparr>rvec := Some rv, tvec := Some tv\<rparr>)))"
proof (cases "settled h r")
  case True
  then show ?thesis
    using assms by (auto simp: rtvecs_body_settled)
next
  case False
  then have u: "rvec (h r) = None \<or> tvec (h r) = None"
    by (simp add: settled_def)
  from assms u obtain b where b: "board = Some b"
    by (cases board) (simp_all add: rtvecs_body_def Let_def)
  from assms u b obtain cam where cam: "cameras_at cameras cix = Inr cam"
    by (cases "cameras_at cameras cix") (simp_all add: rtvecs_body_def Let_def)
  from assms u b cam obtain cs where cs: "corners (h r) = Some cs"
    by (cases "corners (h r)") (simp_all add: rtvecs_body_def Let_def)
  from assms u b cam cs obtain "is" where idz: "ids (h r) = Some is"
    by (cases "ids (h r)") (simp_all add: rtvecs_body_def Let_def)
  from assms u b cam cs idz obtain p where p: "estimate_pose_points f32 cv b cam cs is = Inr p"
    by (cases "estimate_pose_points f32 cv b cam cs is") (simp_all add: rtvecs_body_def Let_def)
  obtain rv tv where rt: "p = (rv, tv)" by (cases p)
  let ?h1 = "h(r := (h r)\<lparr>rvec := Some rv, tvec := Some tv\<rparr>)"
  have "rtvecs_body f32 cv board cameras rix cix r (h, t)
          = (None, (?h1, write_cell (pose_of f32 ?h1) t (rix, cix, r)))"
    using u b cam cs idz p rt by (simp add: rtvecs_body_def Let_def store_pose_eq)
  then have "h' = ?h1" "t' = write_cell (pose_of f32 ?h1) t (rix, cix, r)"
    using assms by simp_all
  then show ?thesis
    using False b cam cs idz p rt by (auto simp: settled_def)
qed

lemma rtvecs_body_frame:
  assumes "rtvecs_body f32 cv board cameras rix cix r (h, t) = (None, (h', t'))"
  shows "(\<forall>r'. settled h r' \<longrightarrow> h' r' = h r') \<and> (\<forall>r'. r' \<noteq> r \<longrightarrow> h' r' = h r')
         \<and> (\<forall>r'. corners (h' r') = corners (h r') \<and> ids (h' r') = ids (h r'))"
  using rtvecs_body_step [OF assms] by auto

lemma write_cell_cong:
  "g r = g' r \<Longrightarrow> write_cell g t (rix, cix, r) = write_cell g' t (rix, cix, r)"
  by (simp add: write_cell_def)

lemma write_all_cong:
  "\<forall>(rix, cix, r) \<in> set vs. g r = g' r \<Longrightarrow> write_all g vs t = write_all g' vs t"
  by (induction vs arbitrary: t) (auto simp: write_all_def write_cell_def)

lemma rtvecs_run:
  assumes "run_visits (rtvecs_body f32 cv board cameras) vs (h, t) = (None, (h', t'))"
  shows "(\<forall>(rix, cix, r) \<in> set vs. settled h' r)
         \<and> (\<forall>r'. settled h r' \<longrightarrow> h' r' = h r')
         \<and> t' = write_all (pose_of f32 h') vs t"
  using assms
proof (induction vs arbitrary: h t)
  case Nil
  then show ?case by (simp add: write_all_def)
next
  case (Cons v vs)
  obtain rix cix r where v: "v = (rix, cix, r)" by (cases v)
  obtain e h1 t1 where b: "rtvecs_body f32 cv board cameras rix cix r (h, t) = (e, (h1, t1))"
    by (metis prod.exhaust)
  have e: "e = None"
    using Cons.prems v b by (cases e) simp_all
  have rest: "run_visits (rtvecs_body f32 cv board cameras) vs (h1, t1) = (None, (h', t'))"
    using Cons.prems v b e by simp
  note IH = Cons.IH [OF rest]
  note st = rtvecs_body_step [OF b [unfolded e]] and fr = rtvecs_body_frame [OF b [unfolded e]]
  have s1: "settled h1 r" using st by simp
  then have hr: "h' r = h1 r" using IH by simp
  have "settled h' r" using s1 hr by (simp add: settled_def)
  moreover have "\<forall>r'. settled h r' \<longrightarrow> h' r' = h r'"
  proof (intro allI impI)
    fix r' assume a: "settled h r'"
    then have "h1 r' = h r'" using fr by simp
    moreover from this a have "settled h1 r'" by (simp add: settled_def)
    ultimately show "h' r' = h r'" using IH by simp
  qed
  moreover have "t' = write_all (pose_of f32 h') (v # vs) t"
  proof -
    have "t1 = write_cell (pose_of f32 h1) t (rix, cix, r)" using st by simp
    also have "\<dots> = write_cell (pose_of f32 h') t (rix, cix, r)"
      by (rule write_cell_cong) (simp add: pose_of_def hr)
    finally show ?thesis
      using IH v by (simp add: write_all_Cons)
  qed
  ultimately show ?case
    using IH v by simp
qed

lemma rtvecs_run_settled:
  assumes "\<forall>(rix, cix, r) \<in> set vs. settled h r"
  shows "run_visits (rtvecs_body f32 cv board cameras) vs (h, t)
           = (None, (h, write_all (pose_of f32 h) vs t))"
  using assms
proof (induction vs arbitrary: t)
  case Nil
  then show ?case by (simp add: write_all_def)
next
  case (Cons v vs)
  obtain rix cix r where v: "v = (rix, cix, r)" by (cases v)
  then have "settled h r" using Cons.prems by simp
  then show ?case
    using Cons v by (simp add: rtvecs_body_settled write_all_Cons)
qed

lemma rtvecs_run_no_board:
  "run_visits (rtvecs_body f32 cv None cameras) vs (h, t) = (e, (h', t')) \<Longrightarrow>
     h' = h \<and> e = (if \<forall>(rix, cix, r) \<in> set vs. settled h r then None else Some ValueError)"
proof (induction vs arbitrary: t)
  case Nil
  then show ?case by simp
next
  case (Cons v vs)
  obtain rix cix r where v: "v = (rix, cix, r)" by (cases v)
  show ?case
  proof (cases "settled h r")
    case True
    then show ?thesis
      using Cons v by (simp add: rtvecs_body_settled)
  next
    case False
    then show ?thesis
      using Cons.prems v by (auto simp: rtvecs_body_no_board)
  qed
qed

lemma rtvecs_run_provenance:
  assumes "run_visits (rtvecs_body f32 cv board cameras) vs (h, t) = (None, (h', t'))"
  shows "\<forall>r'. h' r' = h r'
           \<or> (\<not> settled h r'
              \<and> (\<exists>rix cix b cam cs is rv tv.
                    (rix, cix, r') \<in> set vs
                    \<and> board = Some b \<and> cameras_at cameras cix = Inr cam
                    \<and> corners (h r') = Some cs \<and> ids (h r') = Some is
                    \<and> estimate_pose_points f32 cv b cam cs is = Inr (rv, tv)
                    \<and> h' r' = (h r')\<lparr>rvec := Some rv, tvec := Some tv\<rparr>))"
  using assms
proof (induction vs arbitrary: h t)
  case Nil
  then show ?case by simp
next
  case (Cons v vs)
  obtain rix cix r where v: "v = (rix, cix, r)" by (cases v)
  obtain e h1 t1 where b: "rtvecs_body f32 cv board cameras rix cix r (h, t) = (e, (h1, t1))"
    by (metis prod.exhaust)
  have e: "e = None"
    using Cons.prems v b by (cases e) simp_all
  have rest: "run_visits (rtvecs_body f32 cv board cameras) vs (h1, t1) = (None, (h', t'))"
    using Cons.prems v b e by simp
  note IH = Cons.IH [OF rest]
  note st = rtvecs_body_step [OF b [unfolded e]] and fr = rtvecs_body_frame [OF b [unfolded e]]
  show ?case
  proof
    fix r'
    from IH have d: "h' r' = h1 r'
           \<or> (\<not> settled h1 r'
              \<and> (\<exists>rix cix b cam cs is rv tv.
                    (rix, cix, r') \<in> set vs
                    \<and> board = Some b \<and> cameras_at cameras cix = Inr cam
                    \<and> corners (h1 r') = Some cs \<and> ids (h1 r') = Some is
                    \<and> estimate_pose_points f32 cv b cam cs is = Inr (rv, tv)
                    \<and> h' r' = (h1 r')\<lparr>rvec := Some rv, tvec := Some tv\<rparr>))"
      by blast
    show "h' r' = h r'
           \<or> (\<not> settled h r'
              \<and> (\<exists>rix cix b cam cs is rv tv.
                    (rix, cix, r') \<in> set (v # vs)
                    \<and> board = Some b \<and> cameras_at cameras cix = Inr cam
                    \<and> corners (h r') = Some cs \<and> ids (h r') = Some is
                    \<and> estimate_pose_points f32 cv b cam cs is = Inr (rv, tv)
                    \<and> h' r' = (h r')\<lparr>rvec := Some rv, tvec := Some tv\<rparr>))"
    proof (cases "r' = r")
      case True
      have "settled h1 r" using st by simp
      then have hr: "h' r = h1 r" using d True by blast
      from st show ?thesis
      proof (elim conjE disjE exE)
        assume "h1 = h"
        then show ?thesis using hr True by simp
      next
        fix b cam cs "is" rv tv
        assume "\<not> settled h r" "board = Some b" "cameras_at cameras cix = Inr cam"
          "corners (h r) = Some cs" "ids (h r) = Some is"
          "estimate_pose_points f32 cv b cam cs is = Inr (rv, tv)"
          "h1 = h(r := (h r)\<lparr>rvec := Some rv, tvec := Some tv\<rparr>)"
        then have "\<not> settled h r'
              \<and> (rix, cix, r') \<in> set (v # vs)
              \<and> board = Some b \<and> cameras_at cameras cix = Inr cam
              \<and> corners (h r') = Some cs \<and> ids (h r') = Some is
              \<and> estimate_pose_points f32 cv b cam cs is = Inr (rv, tv)
              \<and> h' r' = (h r')\<lparr>rvec := Some rv, tvec := Some tv\<rparr>"
          using hr True v by simp
        then show ?thesis by blast
      qed
    next
      case False
      then have eq: "h1 r' = h r'" using fr by simp
      then have ss: "settled h1 r' = settled h r'" by (simp add: settled_def)
      from d show ?thesis
      proof (elim disjE conjE exE)
        assume "h' r' = h1 r'"
        then show ?thesis using eq by simp
      next
        fix rix' cix' b cam cs "is" rv tv
        assume "\<not> settled h1 r'" "(rix', cix', r') \<in> set vs" "board = Some b"
          "cameras_at cameras cix' = Inr cam"
          "corners (h1 r') = Some cs" "ids (h1 r') = Some is"
          "estimate_pose_points f32 cv b cam cs is = Inr (rv, tv)"
          "h' r' = (h1 r')\<lparr>rvec := Some rv, tvec := Some tv\<rparr>"
        then have "\<not> settled h r'
              \<and> (rix', cix', r') \<in> set (v # vs)
              \<and> board = Some b \<and> cameras_at cameras cix' = Inr cam
              \<and> corners (h r') = Some cs \<and> ids (h r') = Some is
              \<and> estimate_pose_points f32 cv b cam cs is = Inr (rv, tv)
              \<and> h' r' = (h r')\<lparr>rvec := Some rv, tvec := Some tv\<rparr>"
          using eq ss by simp
        then show ?thesis by blast
      qed
    qed
  qed
qed

lemma extract_rtvecs_char:
  "resolve_cam_names merged cam_names = Inr names \<Longrightarrow>
   extract_rtvecs f32 cv h merged cam_names min_cameras board cameras =
     (case run_visits (rtvecs_body f32 cv board cameras) (visits names merged)
             (h, replicate (length names) (replicate (length merged) nan6)) of
        (Some e, s) \<Rightarrow> (Inl e, fst s)
      | (None, s) \<Rightarrow>
          (Inr (map (select (good_mask fst min_cameras (snd s) (length merged))) (snd s)),
           fst s))"
  by (simp add: extract_rtvecs_def Let_def for_rows_visits)

lemma extract_rtvecs_success:
  assumes "extract_rtvecs f32 cv h merged cam_names min_cameras board cameras = (Inr T, h')"
  shows "\<exists>names t'. resolve_cam_names merged cam_names = Inr names
           \<and> run_visits (rtvecs_body f32 cv board cameras) (visits names merged)
                (h, replicate (length names) (replicate (length merged) nan6))
               = (None, (h', t'))
           \<and> T = map (select (good_mask fst min_cameras t' (length merged))) t'"
proof (cases "resolve_cam_names merged cam_names")
  case (Inl e)
  then show ?thesis
    using assms by (simp add: extract_rtvecs_def)
next
  case (Inr names)
  let ?run = "run_visits (rtvecs_body f32 cv board cameras) (visits names merged)
                (h, replicate (length names) (replicate (length merged) nan6))"
  obtain e h1 t1 where run: "?run = (e, (h1, t1))"
    by (metis prod.exhaust)
  show ?thesis
    using assms Inr run by (cases e) (simp_all add: extract_rtvecs_char)
qed

lemma extract_rtvecs_reread:
  assumes "extract_rtvecs f32 cv h merged cam_names min_cameras board cameras = (Inr T, h')"
  shows "extract_rtvecs f32 cv' h' merged cam_names min_cameras board' cameras' = (Inr T, h')"
proof -
  from extract_rtvecs_success [OF assms] obtain names t' where
    names: "resolve_cam_names merged cam_names = Inr names"
    and run: "run_visits (rtvecs_body f32 cv board cameras) (visits names merged)
                (h, replicate (length names) (replicate (length merged) nan6))
               = (None, (h', t'))"
    and T: "T = map (select (good_mask fst min_cameras t' (length merged))) t'"
    by blast
  let ?t0 = "replicate (length names) (replicate (length merged) nan6)"
  from rtvecs_run [OF run] have
    s: "\<forall>(rix, cix, r) \<in> set (visits names merged). settled h' r"
    and t': "t' = write_all (pose_of f32 h') (visits names merged) ?t0"
    by simp_all
  have "run_visits (rtvecs_body f32 cv' board' cameras') (visits names merged) (h', ?t0)
          = (None, (h', t'))"
    using rtvecs_run_settled [OF s] t' by simp
  then show ?thesis
    using names T by (simp add: extract_rtvecs_char)
qed

lemma resolve_cam_names_mem:
  assumes "case cam_names of None \<Rightarrow> True | Some names \<Rightarrow> cname \<in> set names"
    and "rix < length merged" and "map_of (merged ! rix) cname = Some r"
  shows "\<exists>names. resolve_cam_names merged cam_names = Inr names \<and> cname \<in> set names"
proof (cases cam_names)
  case (Some names)
  then show ?thesis
    using assms by (simp add: resolve_cam_names_def)
next
  case None
  have ne: "merged \<noteq> []"
    using assms(2) by auto
  have "(cname, r) \<in> set (merged ! rix)"
    using assms(3) by (rule map_of_SomeD)
  then have "cname \<in> fst ` set (merged ! rix)"
    by force
  moreover have "merged ! rix \<in> set merged"
    using assms(2) by simp
  ultimately have "cname \<in> (\<Union>row \<in> set merged. set (map fst row))"
    by auto
  moreover have "finite (\<Union>row \<in> set merged. set (map fst row))"
    by simp
  ultimately have "cname \<in> set (sorted_list_of_set (\<Union>row \<in> set merged. set (map fst row)))"
    by (simp only: set_sorted_list_of_set)
  then show ?thesis
    using None ne by (simp add: resolve_cam_names_def)
qed

text \<open>
  Claim C3. If no board is given and some record that the loops visit (frame \<open>rix\<close> of
  \<open>merged\<close>, a camera name that is a key of that group and is among the camera names
  used: the given ones, or all names when \<^verbatim>\<open>cam_names\<close> is \<^verbatim>\<open>None\<close>) lacks the key \<^verbatim>\<open>rvec\<close> or
  the key \<^verbatim>\<open>tvec\<close>, then \<^verbatim>\<open>extract_rtvecs\<close> raises \<^verbatim>\<open>ValueError\<close> (line 181), returns no
  tensor and leaves every record as it was.
\<close>

theorem extract_rtvecs_no_board:
  assumes "case cam_names of None \<Rightarrow> True | Some names \<Rightarrow> cname \<in> set names"
    and "rix < length merged"
    and "map_of (merged ! rix) cname = Some r"
    and "rvec (h r) = None \<or> tvec (h r) = None"
  shows "extract_rtvecs f32 cv h merged cam_names min_cameras None cameras
           = (Inl ValueError, h)"
proof -
  from resolve_cam_names_mem [OF assms(1-3)] obtain names where
    names: "resolve_cam_names merged cam_names = Inr names" and mem: "cname \<in> set names"
    by blast
  from mem obtain cix where cix: "cix < length names" "names ! cix = cname"
    by (auto simp: in_set_conv_nth)
  have v: "(rix, cix, r) \<in> set (visits names merged)"
    using assms(2,3) cix by (simp add: in_visits)
  have ns: "\<not> settled h r"
    using assms(4) by (auto simp: settled_def)
  let ?run = "run_visits (rtvecs_body f32 cv None cameras) (visits names merged)
                (h, replicate (length names) (replicate (length merged) nan6))"
  obtain e h1 t1 where run: "?run = (e, (h1, t1))"
    by (metis prod.exhaust)
  have "\<not> (\<forall>(rix, cix, r) \<in> set (visits names merged). settled h r)"
    using v ns by blast
  with rtvecs_run_no_board [OF run] have "h1 = h" "e = Some ValueError"
    by simp_all
  then show ?thesis
    using names run by (simp add: extract_rtvecs_char)
qed

theorem extract_rtvecs_no_board_witness:
  "(case (None :: string list option) of None \<Rightarrow> True | Some names \<Rightarrow> ''B'' \<in> set names)
   \<and> (0::nat) < length [[(''A'', 0::ref), (''B'', 1)]]
   \<and> map_of ([[(''A'', 0::ref), (''B'', 1)]] ! 0) ''B'' = Some 1
   \<and> (rvec (rtvecs_heap 1) = None \<or> tvec (rtvecs_heap 1) = None)
   \<and> extract_rtvecs (\<lambda>x. x) no_cv rtvecs_heap [[(''A'', 0), (''B'', 1)]] None 1 None
         (None :: unit list option)
       = (Inl ValueError, rtvecs_heap)"
proof -
  have a: "case (None :: string list option) of None \<Rightarrow> True | Some names \<Rightarrow> ''B'' \<in> set names"
    by simp
  have b: "(0::nat) < length [[(''A'', 0::ref), (''B'', 1)]]"
    by simp
  have c: "map_of ([[(''A'', 0::ref), (''B'', 1)]] ! 0) ''B'' = Some 1"
    by simp
  have d: "rvec (rtvecs_heap 1) = None \<or> tvec (rtvecs_heap 1) = None"
    by (simp add: rtvecs_heap_def)
  have e: "extract_rtvecs (\<lambda>x. x) no_cv rtvecs_heap [[(''A'', 0), (''B'', 1)]] None 1 None
             (None :: unit list option) = (Inl ValueError, rtvecs_heap)"
    using extract_rtvecs_no_board
      [where cam_names = "None :: string list option" and cname = "''B''" and rix = 0
         and merged = "[[(''A'', 0), (''B'', 1)]]" and r = 1 and h = rtvecs_heap,
       OF a b c d] .
  show ?thesis
    using a b c d e by (intro conjI)
qed

text \<open>
  Claim C6. If a call of \<^verbatim>\<open>extract_rtvecs\<close> returns a tensor, then every record the loops
  visited has the keys \<^verbatim>\<open>rvec\<close> and \<^verbatim>\<open>tvec\<close> afterwards (the computed poses were written
  back into the records), a record that had both keys before is unchanged, and a
  second call on the records as the first call left them returns the same tensor and
  writes to no record: with the same arguments, and also with any other solver, board
  and cameras, so the second call only reads.
\<close>

theorem extract_rtvecs_idempotent:
  assumes "extract_rtvecs f32 cv h merged cam_names min_cameras board cameras = (Inr T, h')"
  shows "(\<exists>names. resolve_cam_names merged cam_names = Inr names
            \<and> (\<forall>rix cix r. rix < length merged \<longrightarrow> cix < length names
                   \<longrightarrow> map_of (merged ! rix) (names ! cix) = Some r
                   \<longrightarrow> rvec (h' r) \<noteq> None \<and> tvec (h' r) \<noteq> None))
         \<and> (\<forall>r. rvec (h r) \<noteq> None \<and> tvec (h r) \<noteq> None \<longrightarrow> h' r = h r)
         \<and> extract_rtvecs f32 cv h' merged cam_names min_cameras board cameras = (Inr T, h')
         \<and> extract_rtvecs f32 cv' h' merged cam_names min_cameras board' cameras' = (Inr T, h')"
proof -
  from extract_rtvecs_success [OF assms] obtain names t' where
    names: "resolve_cam_names merged cam_names = Inr names"
    and run: "run_visits (rtvecs_body f32 cv board cameras) (visits names merged)
                (h, replicate (length names) (replicate (length merged) nan6))
               = (None, (h', t'))"
    by blast
  note facts = rtvecs_run [OF run]
  have keys: "\<forall>rix cix r. rix < length merged \<longrightarrow> cix < length names
                   \<longrightarrow> map_of (merged ! rix) (names ! cix) = Some r
                   \<longrightarrow> rvec (h' r) \<noteq> None \<and> tvec (h' r) \<noteq> None"
  proof (intro allI impI)
    fix rix cix r
    assume "rix < length merged" "cix < length names"
      "map_of (merged ! rix) (names ! cix) = Some r"
    then have "(rix, cix, r) \<in> set (visits names merged)"
      by (simp add: in_visits)
    then have "settled h' r"
      using facts by auto
    then show "rvec (h' r) \<noteq> None \<and> tvec (h' r) \<noteq> None"
      by (simp add: settled_def)
  qed
  have a: "\<exists>names. resolve_cam_names merged cam_names = Inr names
            \<and> (\<forall>rix cix r. rix < length merged \<longrightarrow> cix < length names
                   \<longrightarrow> map_of (merged ! rix) (names ! cix) = Some r
                   \<longrightarrow> rvec (h' r) \<noteq> None \<and> tvec (h' r) \<noteq> None)"
    using names keys by blast
  have b: "\<forall>r. rvec (h r) \<noteq> None \<and> tvec (h r) \<noteq> None \<longrightarrow> h' r = h r"
    using facts by (simp add: settled_def)
  have c: "extract_rtvecs f32 cv h' merged cam_names min_cameras board cameras = (Inr T, h')"
    using assms by (rule extract_rtvecs_reread)
  have d: "extract_rtvecs f32 cv' h' merged cam_names min_cameras board' cameras' = (Inr T, h')"
    using assms by (rule extract_rtvecs_reread)
  show ?thesis
    using a b c d by (intro conjI)
qed

theorem extract_rtvecs_idempotent_witness:
  "fst (extract_rtvecs (\<lambda>x. x) fixed_cv corner_heap [[(''A'', 0), (''B'', 1)]] None 1
          (Some (CharucoBoard 3 3 1 1)) (Some [(), ()]))
     = Inr [[(Fin 1, Fin 2, Fin 3, Fin 4, Fin 5, Fin 6)],
            [(Fin 7, Fin 8, Fin 9, Fin 10, Fin 11, Fin 12)]]
   \<and> resolve_cam_names [[(''A'', 0::ref), (''B'', 1)]] None = Inr [''A'', ''B'']
   \<and> (0::nat) < length [[(''A'', 0::ref), (''B'', 1)]]
   \<and> (1::nat) < length [''A'', ''B'']
   \<and> map_of ([[(''A'', 0::ref), (''B'', 1)]] ! 0) ([''A'', ''B''] ! 1) = Some 1
   \<and> rvec (corner_heap 1) = None
   \<and> rvec (snd (extract_rtvecs (\<lambda>x. x) fixed_cv corner_heap [[(''A'', 0), (''B'', 1)]] None 1
                  (Some (CharucoBoard 3 3 1 1)) (Some [(), ()])) 1) \<noteq> None
   \<and> tvec (snd (extract_rtvecs (\<lambda>x. x) fixed_cv corner_heap [[(''A'', 0), (''B'', 1)]] None 1
                  (Some (CharucoBoard 3 3 1 1)) (Some [(), ()])) 1) \<noteq> None
   \<and> rvec (corner_heap 0) \<noteq> None \<and> tvec (corner_heap 0) \<noteq> None
   \<and> snd (extract_rtvecs (\<lambda>x. x) fixed_cv corner_heap [[(''A'', 0), (''B'', 1)]] None 1
            (Some (CharucoBoard 3 3 1 1)) (Some [(), ()])) 0 = corner_heap 0
   \<and> fst (extract_rtvecs (\<lambda>x. x) fixed_cv
            (snd (extract_rtvecs (\<lambda>x. x) fixed_cv corner_heap [[(''A'', 0), (''B'', 1)]] None 1
                    (Some (CharucoBoard 3 3 1 1)) (Some [(), ()])))
            [[(''A'', 0), (''B'', 1)]] None 1 (Some (CharucoBoard 3 3 1 1)) (Some [(), ()]))
     = Inr [[(Fin 1, Fin 2, Fin 3, Fin 4, Fin 5, Fin 6)],
            [(Fin 7, Fin 8, Fin 9, Fin 10, Fin 11, Fin 12)]]
   \<and> fst (extract_rtvecs (\<lambda>x. x) no_cv
            (snd (extract_rtvecs (\<lambda>x. x) fixed_cv corner_heap [[(''A'', 0), (''B'', 1)]] None 1
                    (Some (CharucoBoard 3 3 1 1)) (Some [(), ()])))
            [[(''A'', 0), (''B'', 1)]] None 1 None (None :: unit list option))
     = Inr [[(Fin 1, Fin 2, Fin 3, Fin 4, Fin 5, Fin 6)],
            [(Fin 7, Fin 8, Fin 9, Fin 10, Fin 11, Fin 12)]]"
proof -
  let ?M = "[[(''A'', 0::ref), (''B'', 1)]]"
  let ?first = "extract_rtvecs (\<lambda>x. x) fixed_cv corner_heap ?M None 1
                  (Some (CharucoBoard 3 3 1 1)) (Some [(), ()])"
  let ?T = "[[(Fin 1, Fin 2, Fin 3, Fin 4, Fin 5, Fin 6)],
             [(Fin 7, Fin 8, Fin 9, Fin 10, Fin 11, Fin 12)]]"
  have f: "fst ?first = Inr ?T"
    by code_simp
  then have p: "?first = (Inr ?T, snd ?first)"
    by (metis prod.collapse)
  have n: "resolve_cam_names ?M None = Inr [''A'', ''B'']"
    by code_simp
  have r: "(0::nat) < length ?M"
    by simp
  have c: "(1::nat) < length [''A'', ''B'']"
    by simp
  have m: "map_of (?M ! 0) ([''A'', ''B''] ! 1) = Some 1"
    by simp
  have u: "rvec (corner_heap 1) = None"
    by (simp add: corner_heap_def)
  have s0: "rvec (corner_heap 0) \<noteq> None" "tvec (corner_heap 0) \<noteq> None"
    by (simp_all add: corner_heap_def)
  note inst = extract_rtvecs_idempotent
    [where cv' = no_cv and board' = None and cameras' = "None :: unit list option", OF p]
  from inst obtain names where
    names: "resolve_cam_names ?M None = Inr names"
    and keys: "\<forall>rix cix r. rix < length ?M \<longrightarrow> cix < length names
                   \<longrightarrow> map_of (?M ! rix) (names ! cix) = Some r
                   \<longrightarrow> rvec (snd ?first r) \<noteq> None \<and> tvec (snd ?first r) \<noteq> None"
    by blast
  from names n have nm: "names = [''A'', ''B'']"
    by simp
  have k: "rvec (snd ?first 1) \<noteq> None" "tvec (snd ?first 1) \<noteq> None"
    using keys r c m unfolding nm by blast+
  from inst have "\<forall>r. rvec (corner_heap r) \<noteq> None \<and> tvec (corner_heap r) \<noteq> None
                       \<longrightarrow> snd ?first r = corner_heap r"
    by blast
  with s0 have same: "snd ?first 0 = corner_heap 0"
    by blast
  from inst have again: "fst (extract_rtvecs (\<lambda>x. x) fixed_cv (snd ?first) ?M None 1
                               (Some (CharucoBoard 3 3 1 1)) (Some [(), ()])) = Inr ?T"
    by simp
  from inst have other: "fst (extract_rtvecs (\<lambda>x. x) no_cv (snd ?first) ?M None 1 None
                               (None :: unit list option)) = Inr ?T"
    by simp
  show ?thesis
    using f n r c m u k s0 same again other by (intro conjI)
qed

text \<open>
  Claim C10. If \<^verbatim>\<open>extract_rtvecs\<close> returns when called with a board, every record it
  visited has the keys \<^verbatim>\<open>rvec\<close> and \<^verbatim>\<open>tvec\<close> afterwards; a record that lacked one of them
  has \<^verbatim>\<open>corners\<close> and \<^verbatim>\<open>ids\<close>, and if \<^verbatim>\<open>estimate_pose_points\<close> returns the pair
  \<^verbatim>\<open>(None, None)\<close> for them, both keys hold \<^verbatim>\<open>None\<close>. From then on the loop body takes the
  reading branch at that record whatever solver, board and cameras it is given
  (\<open>store_pose\<close> calls no estimator), and a later call on the same groups returns the
  same tensor even without a board.
\<close>

theorem extract_rtvecs_caches_failed_estimate:
  assumes "extract_rtvecs f32 cv h merged cam_names min_cameras (Some b) cameras = (Inr T, h')"
    and "resolve_cam_names merged cam_names = Inr names"
    and "rix < length merged" and "cix < length names"
    and "map_of (merged ! rix) (names ! cix) = Some r"
  shows "rvec (h' r) \<noteq> None \<and> tvec (h' r) \<noteq> None
         \<and> ((rvec (h r) = None \<or> tvec (h r) = None) \<longrightarrow>
              (\<exists>cs is. corners (h r) = Some cs \<and> ids (h r) = Some is
                 \<and> ((\<forall>camera. estimate_pose_points f32 cv b camera cs is = Inr (None, None))
                      \<longrightarrow> rvec (h' r) = Some None \<and> tvec (h' r) = Some None)))
         \<and> rtvecs_body f32 cv' board' cameras' rix' cix' r (h', t)
               = store_pose f32 rix' cix' r (h', t)
         \<and> extract_rtvecs f32 cv' h' merged cam_names min_cameras board' cameras' = (Inr T, h')"
proof -
  from extract_rtvecs_success [OF assms(1)] assms(2) obtain t' where
    run: "run_visits (rtvecs_body f32 cv (Some b) cameras) (visits names merged)
                (h, replicate (length names) (replicate (length merged) nan6))
               = (None, (h', t'))"
    by auto
  have v: "(rix, cix, r) \<in> set (visits names merged)"
    using assms(3-5) by (simp add: in_visits)
  have st: "settled h' r"
    using rtvecs_run [OF run] v by auto
  then have body: "rtvecs_body f32 cv' board' cameras' rix' cix' r (h', t)
                     = store_pose f32 rix' cix' r (h', t)"
    by (simp add: rtvecs_body_settled store_pose_eq)
  from st have keys: "rvec (h' r) \<noteq> None" "tvec (h' r) \<noteq> None"
    by (simp_all add: settled_def)
  have cached: "(rvec (h r) = None \<or> tvec (h r) = None) \<longrightarrow>
              (\<exists>cs is. corners (h r) = Some cs \<and> ids (h r) = Some is
                 \<and> ((\<forall>camera. estimate_pose_points f32 cv b camera cs is = Inr (None, None))
                      \<longrightarrow> rvec (h' r) = Some None \<and> tvec (h' r) = Some None))"
  proof
    assume u: "rvec (h r) = None \<or> tvec (h r) = None"
    then have "h' r \<noteq> h r"
      using keys by auto
    with rtvecs_run_provenance [OF run] obtain cam cs "is" rv tv where
      c: "corners (h r) = Some cs" "ids (h r) = Some is"
      and e: "estimate_pose_points f32 cv b cam cs is = Inr (rv, tv)"
      and h': "h' r = (h r)\<lparr>rvec := Some rv, tvec := Some tv\<rparr>"
      by blast
    have "(\<forall>camera. estimate_pose_points f32 cv b camera cs is = Inr (None, None))
            \<longrightarrow> rvec (h' r) = Some None \<and> tvec (h' r) = Some None"
      using e h' by auto
    with c show "\<exists>cs is. corners (h r) = Some cs \<and> ids (h r) = Some is
                 \<and> ((\<forall>camera. estimate_pose_points f32 cv b camera cs is = Inr (None, None))
                      \<longrightarrow> rvec (h' r) = Some None \<and> tvec (h' r) = Some None)"
      by blast
  qed
  have again: "extract_rtvecs f32 cv' h' merged cam_names min_cameras board' cameras'
                 = (Inr T, h')"
    using assms(1) by (rule extract_rtvecs_reread)
  show ?thesis
    using keys cached body again by (intro conjI)
qed

theorem extract_rtvecs_caches_failed_estimate_witness:
  "fst (extract_rtvecs (\<lambda>x. x) no_cv rtvecs_heap [[(''A'', 0), (''B'', 1)]] None 1
          (Some (CharucoBoard 3 3 1 1)) (Some [(), ()]))
     = Inr [[(Fin 1, Fin 2, Fin 3, Fin 4, Fin 5, Fin 6)], [nan6]]
   \<and> resolve_cam_names [[(''A'', 0::ref), (''B'', 1)]] None = Inr [''A'', ''B'']
   \<and> (0::nat) < length [[(''A'', 0::ref), (''B'', 1)]]
   \<and> (1::nat) < length [''A'', ''B'']
   \<and> map_of ([[(''A'', 0::ref), (''B'', 1)]] ! 0) ([''A'', ''B''] ! 1) = Some 1
   \<and> rvec (rtvecs_heap 1) = None
   \<and> corners (rtvecs_heap 1) = Some (Some [(Fin 1, Fin 2)])
   \<and> ids (rtvecs_heap 1) = Some (Some [0])
   \<and> estimate_pose_points (\<lambda>x. x) no_cv (CharucoBoard 3 3 1 1) ()
         (Some [(Fin 1, Fin 2)]) (Some [0]) = Inr (None, None)
   \<and> rvec (snd (extract_rtvecs (\<lambda>x. x) no_cv rtvecs_heap [[(''A'', 0), (''B'', 1)]] None 1
                  (Some (CharucoBoard 3 3 1 1)) (Some [(), ()])) 1) = Some None
   \<and> tvec (snd (extract_rtvecs (\<lambda>x. x) no_cv rtvecs_heap [[(''A'', 0), (''B'', 1)]] None 1
                  (Some (CharucoBoard 3 3 1 1)) (Some [(), ()])) 1) = Some None
   \<and> fst (extract_rtvecs (\<lambda>x. x) no_cv
            (snd (extract_rtvecs (\<lambda>x. x) no_cv rtvecs_heap [[(''A'', 0), (''B'', 1)]] None 1
                    (Some (CharucoBoard 3 3 1 1)) (Some [(), ()])))
            [[(''A'', 0), (''B'', 1)]] None 1 None (None :: unit list option))
     = Inr [[(Fin 1, Fin 2, Fin 3, Fin 4, Fin 5, Fin 6)], [nan6]]"
proof -
  let ?M = "[[(''A'', 0::ref), (''B'', 1)]]"
  let ?first = "extract_rtvecs (\<lambda>x. x) no_cv rtvecs_heap ?M None 1
                  (Some (CharucoBoard 3 3 1 1)) (Some [(), ()])"
  let ?T = "[[(Fin 1, Fin 2, Fin 3, Fin 4, Fin 5, Fin 6)], [nan6]]"
  have f: "fst ?first = Inr ?T"
    by code_simp
  then have p: "?first = (Inr ?T, snd ?first)"
    by (metis prod.collapse)
  have n: "resolve_cam_names ?M None = Inr [''A'', ''B'']"
    by code_simp
  have r: "(0::nat) < length ?M"
    by simp
  have c: "(1::nat) < length [''A'', ''B'']"
    by simp
  have m: "map_of (?M ! 0) ([''A'', ''B''] ! 1) = Some 1"
    by simp
  have u: "rvec (rtvecs_heap 1) = None"
    by (simp add: rtvecs_heap_def)
  have cs: "corners (rtvecs_heap 1) = Some (Some [(Fin 1, Fin 2)])"
    by (simp add: rtvecs_heap_def)
  have iz: "ids (rtvecs_heap 1) = Some (Some [0])"
    by (simp add: rtvecs_heap_def)
  have e: "estimate_pose_points (\<lambda>x. x) no_cv (CharucoBoard 3 3 1 1) camera
             (Some [(Fin 1, Fin 2)]) (Some [0]) = Inr (None, None)" for camera
    by (simp add: CharucoBoard_estimate_pose_points_def)
  note inst = extract_rtvecs_caches_failed_estimate
    [where cv' = no_cv and board' = None and cameras' = "None :: unit list option",
     OF p n r c m]
  from inst have again: "fst (extract_rtvecs (\<lambda>x. x) no_cv (snd ?first) ?M None 1 None
                               (None :: unit list option)) = Inr ?T"
    by simp
  from inst u obtain cs' is' where
    k: "corners (rtvecs_heap 1) = Some cs'" "ids (rtvecs_heap 1) = Some is'"
    and i: "(\<forall>camera. estimate_pose_points (\<lambda>x. x) no_cv (CharucoBoard 3 3 1 1) camera cs' is'
                = Inr (None, None))
            \<longrightarrow> rvec (snd ?first 1) = Some None \<and> tvec (snd ?first 1) = Some None"
    by blast
  from k cs iz have "cs' = Some [(Fin 1, Fin 2)]" "is' = Some [0]"
    by simp_all
  with i e have v: "rvec (snd ?first 1) = Some None" "tvec (snd ?first 1) = Some None"
    by simp_all
  show ?thesis
    using f n r c m u cs iz e [of "()"] v again by (intro conjI)
qed

end
